theory Spec2Isabelle
  imports Main "HOL-Library.Sublist"
begin

section \<open>Text and character categories\<close>

text \<open>
  The program works on Python \<open>str\<close> values. A text is modelled as a \<open>string\<close>, one
  \<open>char\<close> per code point, which covers the code points below 256. In that range the
  decimal digits of \<open>\d\<close> and of \<open>int\<close> are \<open>0\<close> to \<open>9\<close>, and the white space of \<open>\s\<close> and
  of \<open>str.strip\<close> is the set listed in \<open>is_space\<close>.
\<close>

definition is_digit :: "char \<Rightarrow> bool" where
  "is_digit c = (let n = (of_char c :: nat) in 48 \<le> n \<and> n \<le> 57)"

definition is_space :: "char \<Rightarrow> bool" where
  "is_space c = ((of_char c :: nat) \<in> {9, 10, 11, 12, 13, 28, 29, 30, 31, 32, 133, 160})"

definition strip :: "string \<Rightarrow> string" where
  "strip s = rev (dropWhile is_space (rev (dropWhile is_space s)))"

text \<open>\<open>str.replace(old, new)\<close> for a needle \<open>old\<close> of one character.\<close>

definition replace :: "char \<Rightarrow> string \<Rightarrow> string \<Rightarrow> string" where
  "replace old new s = concat (map (\<lambda>c. if c = old then new else [c]) s)"

section \<open>Regular expressions of the \<open>re\<close> module\<close>

text \<open>
  The patterns of the program are sequences of one-character items, each with a
  quantifier, and capturing groups. A class is the list of the alternatives between
  square brackets; a literal character or an escape alone is a class of one alternative.
  \<open>Mark\<close> is the boundary of a capturing group: the matcher records the position it has
  reached there, as the remaining input.
\<close>

datatype atom = Chr char | Digit | Space | NonSpace

type_synonym cls = "atom list"

datatype quant = One | Times nat | Star | Plus | Opt | LazyStar

datatype item = Rep cls quant | Mark

fun in_atom :: "atom \<Rightarrow> char \<Rightarrow> bool" where
  "in_atom (Chr a) c = (c = a)"
| "in_atom Digit c = is_digit c"
| "in_atom Space c = is_space c"
| "in_atom NonSpace c = (\<not> is_space c)"

definition in_cls :: "cls \<Rightarrow> char \<Rightarrow> bool" where
  "in_cls k c = list_ex (\<lambda>a. in_atom a c) k"

text \<open>
  The backtracking matcher, anchored at the start of \<open>s\<close>. The alternatives are tried in
  the order of the \<open>re\<close> module: a greedy quantifier takes one more character first and
  gives it back when the rest of the pattern fails, a lazy one tries the rest of the
  pattern first. The result is the list of the positions at the marks, in pattern order.
\<close>

fun rmatch :: "item list \<Rightarrow> string \<Rightarrow> string list option" where
  "rmatch [] s = Some []"
| "rmatch (Mark # r) s = map_option ((#) s) (rmatch r s)"
| "rmatch (Rep k One # r) [] = None"
| "rmatch (Rep k One # r) (c # cs) = (if in_cls k c then rmatch r cs else None)"
| "rmatch (Rep k (Times 0) # r) s = rmatch r s"
| "rmatch (Rep k (Times (Suc n)) # r) [] = None"
| "rmatch (Rep k (Times (Suc n)) # r) (c # cs) =
     (if in_cls k c then rmatch (Rep k (Times n) # r) cs else None)"
| "rmatch (Rep k Star # r) [] = rmatch r []"
| "rmatch (Rep k Star # r) (c # cs) =
     (if in_cls k c
      then (case rmatch (Rep k Star # r) cs of
              Some m \<Rightarrow> Some m
            | None \<Rightarrow> rmatch r (c # cs))
      else rmatch r (c # cs))"
| "rmatch (Rep k Plus # r) [] = None"
| "rmatch (Rep k Plus # r) (c # cs) =
     (if in_cls k c then rmatch (Rep k Star # r) cs else None)"
| "rmatch (Rep k Opt # r) [] = rmatch r []"
| "rmatch (Rep k Opt # r) (c # cs) =
     (if in_cls k c
      then (case rmatch r cs of Some m \<Rightarrow> Some m | None \<Rightarrow> rmatch r (c # cs))
      else rmatch r (c # cs))"
| "rmatch (Rep k LazyStar # r) [] = rmatch r []"
| "rmatch (Rep k LazyStar # r) (c # cs) =
     (case rmatch r (c # cs) of
        Some m \<Rightarrow> Some m
      | None \<Rightarrow> if in_cls k c then rmatch (Rep k LazyStar # r) cs else None)"

text \<open>\<open>re.search\<close>: the match at the leftmost position where the pattern matches.\<close>

fun search :: "item list \<Rightarrow> string \<Rightarrow> string list option" where
  "search p [] = rmatch p []"
| "search p (c # cs) = (case rmatch p (c # cs) of Some m \<Rightarrow> Some m | None \<Rightarrow> search p cs)"

text \<open>
  \<open>match.group(n)\<close>, written \<open>group_m\<close>: the text between the two marks of group \<open>n\<close>. The
  program asks a match only for groups that its pattern has, and every group of its
  patterns takes part in every match, so the two marks are there.
\<close>

definition group_m :: "string list \<Rightarrow> nat \<Rightarrow> string" where
  "group_m m n = (let a = m ! (2 * (n - 1)); b = m ! (2 * (n - 1) + 1)
                in take (length a - length b) a)"

text \<open>A run of literal characters.\<close>

definition lit :: "string \<Rightarrow> item list" where
  "lit w = map (\<lambda>c. Rep [Chr c] One) w"

section \<open>The monetary value normalizer\<close>

text \<open>
  \<^verbatim>\<open>
  def limpiar_valor_monetario(valor):
      if valor:
          return valor.replace('$', '').replace(',', '').strip()
      return '0'
  \<close>
  The argument is a string or \<open>None\<close>; both \<open>None\<close> and the empty string are false.
\<close>

definition limpiar_valor_monetario :: "string option \<Rightarrow> string" where
  "limpiar_valor_monetario valor =
     (case valor of
        None \<Rightarrow> ''0''
      | Some v \<Rightarrow>
          if v \<noteq> [] then strip (replace CHR '','' [] (replace CHR ''$'' [] v))
          else ''0'')"

section \<open>Conversion to integer\<close>

text \<open>
  \<open>int(s)\<close> on a string: white space around the literal is ignored, a sign may come
  first, then decimal digits, where one underscore may stand between two digits. Anything
  else raises \<open>ValueError\<close>. The white space that \<open>int\<close> ignores is the set of
  \<open>is_int_space\<close>: unlike \<open>str.strip\<close> it keeps the separators U+001C to U+001F, which
  make the literal invalid. A literal of more than \<open>max_str_digits\<close> digits raises
  \<open>ValueError\<close> too: this is the interpreter's limit on the conversion of decimal
  strings, 4300 by default, which the program does not change; the sign and the
  underscores do not count. Below the limit the value is unbounded.
\<close>

datatype excepcion = ValueError string | TypeError

definition digit_val :: "char \<Rightarrow> int" where
  "digit_val c = int (of_char c) - 48"

fun int_digits :: "int \<Rightarrow> string \<Rightarrow> int option" where
  "int_digits acc [] = Some acc"
| "int_digits acc (c # cs) =
     (if is_digit c then int_digits (acc * 10 + digit_val c) cs
      else if c = CHR ''_'' then
        (case cs of [] \<Rightarrow> None
         | d # ds \<Rightarrow> if is_digit d then int_digits acc cs else None)
      else None)"

definition int_unsigned :: "string \<Rightarrow> int option" where
  "int_unsigned s =
     (case s of [] \<Rightarrow> None
      | c # cs \<Rightarrow> if is_digit c then int_digits 0 s else None)"

definition is_int_space :: "char \<Rightarrow> bool" where
  "is_int_space c = ((of_char c :: nat) \<in> {9, 10, 11, 12, 13, 32, 133, 160})"

definition int_strip :: "string \<Rightarrow> string" where
  "int_strip s = rev (dropWhile is_int_space (rev (dropWhile is_int_space s)))"

definition max_str_digits :: nat where
  "max_str_digits = 4300"

definition py_int :: "string \<Rightarrow> excepcion + int" where
  "py_int s =
     (case int_strip s of
        [] \<Rightarrow> Inl (ValueError s)
      | c # cs \<Rightarrow>
          (case (if c = CHR ''-'' then map_option uminus (int_unsigned cs)
                 else if c = CHR ''+'' then int_unsigned cs
                 else int_unsigned (c # cs)) of
             None \<Rightarrow> Inl (ValueError s)
           | Some v \<Rightarrow>
               if max_str_digits < length (filter is_digit (c # cs))
               then Inl (ValueError s)
               else Inr v))"

text \<open>The value of a string of decimal digits, for stating results.\<close>

definition decimal :: "string \<Rightarrow> int" where
  "decimal s = foldl (\<lambda>acc c. acc * 10 + digit_val c) 0 s"

section \<open>The field extractor\<close>

text \<open>
  The dictionary \<open>datos\<close> has the same eight keys on every path, so it is a record. The
  key \<open>Total\<close> is written \<open>Total'\<close>.
\<close>

record datos =
  Apertura :: string
  Cierre :: string
  V_Bruta :: int
  Total' :: int
  Efectivo :: int
  Datafono :: int
  Total_Egresos :: int
  Diferencia :: int

definition datos_iniciales :: datos where
  "datos_iniciales =
     \<lparr>Apertura = [], Cierre = [], V_Bruta = 0, Total' = 0, Efectivo = 0, Datafono = 0,
      Total_Egresos = 0, Diferencia = 0\<rparr>"

subsection \<open>The patterns\<close>

text \<open>
  The fragments that the patterns of the program share: \<^verbatim>\<open>\s*\<close>, \<^verbatim>\<open>[\s\S]*?\<close>,
  \<^verbatim>\<open>\$?([\d,]+)\<close>, \<^verbatim>\<open>(\d{2}/\d{2}/\d{4}\s+\d{2}:\d{2}:\d{2}\s+[AP]M)\<close>,
  \<^verbatim>\<open>V\.\s*Bruta\s*:\s*\$?([\d,]+)\<close>, \<^verbatim>\<open>Total\s*:\s*\$?([\d,]+)\<close>,
  \<^verbatim>\<open>Medio\s*:\s*\<close> before the name of the means of payment, and
  \<^verbatim>\<open>Val\.\s*Ventas\s*:\s*\$?([\d,]+)\<close>.
\<close>

definition espacios :: item where
  "espacios = Rep [Space] Star"

definition cualquiera :: item where
  "cualquiera = Rep [Space, NonSpace] LazyStar"

definition numero :: "item list" where
  "numero = [Rep [Chr CHR ''$''] Opt, Mark, Rep [Digit, Chr CHR '',''] Plus, Mark]"

definition fecha_hora :: "item list" where
  "fecha_hora =
     [Mark,
      Rep [Digit] (Times 2), Rep [Chr CHR ''/''] One,
      Rep [Digit] (Times 2), Rep [Chr CHR ''/''] One,
      Rep [Digit] (Times 4), Rep [Space] Plus,
      Rep [Digit] (Times 2), Rep [Chr CHR '':''] One,
      Rep [Digit] (Times 2), Rep [Chr CHR '':''] One,
      Rep [Digit] (Times 2), Rep [Space] Plus,
      Rep [Chr CHR ''A'', Chr CHR ''P''] One, Rep [Chr CHR ''M''] One,
      Mark]"

definition pat_v_bruta :: "item list" where
  "pat_v_bruta = lit ''V.'' @ [espacios] @ lit ''Bruta'' @ [espacios] @ lit '':'' @ [espacios] @ numero"

definition pat_total :: "item list" where
  "pat_total = lit ''Total'' @ [espacios] @ lit '':'' @ [espacios] @ numero"

definition pat_medio :: "string \<Rightarrow> item list" where
  "pat_medio nombre = lit ''Medio'' @ [espacios] @ lit '':'' @ [espacios] @ lit nombre"

definition pat_val_ventas :: "item list" where
  "pat_val_ventas =
     lit ''Val.'' @ [espacios] @ lit ''Ventas'' @ [espacios] @ lit '':'' @ [espacios] @ numero"

text \<open>
  \<^verbatim>\<open>
  patron_apertura = r'A:\s*(\d{2}/\d{2}/\d{4}\s+\d{2}:\d{2}:\d{2}\s+[AP]M)'
  patron_cierre = r'C:\s*(\d{2}/\d{2}/\d{4}\s+\d{2}:\d{2}:\d{2}\s+[AP]M)'
  patron_seccion_facturas = r'DATOS DE FACTURAS[\s\S]*?V\.\s*Bruta\s*:\s*\$?([\d,]+)[\s\S]*?Total\s*:\s*\$?([\d,]+)'
  patron_efectivo = r'Medio\s*:\s*EFECTIVO[\s\S]*?Val\.\s*Ventas\s*:\s*\$?([\d,]+)'
  patron_datafono = r'Medio\s*:\s*DATAFONO[\s\S]*?Val\.\s*Ventas\s*:\s*\$?([\d,]+)'
  patron_egresos = r'DETALLE DE EGRESOS[\s\S]*?Total\s*:\s*\$?([\d,]+)'
  patron_diferencia = r'Diferencia:\s*\$?([\d,]+)'
  \<close>
\<close>

definition patron_apertura :: "item list" where
  "patron_apertura = lit ''A:'' @ [espacios] @ fecha_hora"

definition patron_cierre :: "item list" where
  "patron_cierre = lit ''C:'' @ [espacios] @ fecha_hora"

definition patron_seccion_facturas :: "item list" where
  "patron_seccion_facturas =
     lit ''DATOS DE FACTURAS'' @ [cualquiera] @ pat_v_bruta @ [cualquiera] @ pat_total"

definition patron_efectivo :: "item list" where
  "patron_efectivo = pat_medio ''EFECTIVO'' @ [cualquiera] @ pat_val_ventas"

definition patron_datafono :: "item list" where
  "patron_datafono = pat_medio ''DATAFONO'' @ [cualquiera] @ pat_val_ventas"

definition patron_egresos :: "item list" where
  "patron_egresos = lit ''DETALLE DE EGRESOS'' @ [cualquiera] @ pat_total"

definition patron_diferencia :: "item list" where
  "patron_diferencia = lit ''Diferencia:'' @ [espacios] @ numero"

subsection \<open>The statements of the \<open>try\<close> block\<close>

text \<open>
  A statement takes the record and returns it, updated, with the exception it raised if
  any. The statements of the block run in order up to the first that raises; the handler
  reports that exception with \<open>st.error\<close>, and the function returns the record as it
  stands. The model returns the record together with the reported exception.
\<close>

type_synonym sentencia = "datos \<Rightarrow> datos \<times> excepcion option"

fun ejecutar :: "sentencia list \<Rightarrow> sentencia" where
  "ejecutar [] d = (d, None)"
| "ejecutar (f # fs) d =
     (case f d of (d', Some e) \<Rightarrow> (d', Some e) | (d', None) \<Rightarrow> ejecutar fs d')"

text \<open>\<open>int(limpiar_valor_monetario(match.group(n)))\<close>\<close>

definition entero :: "string list \<Rightarrow> nat \<Rightarrow> excepcion + int" where
  "entero m n = py_int (limpiar_valor_monetario (Some (group_m m n)))"

definition extraer_apertura :: "string \<Rightarrow> sentencia" where
  "extraer_apertura texto d =
     (case search patron_apertura texto of
        None \<Rightarrow> (d, None)
      | Some m \<Rightarrow> (d\<lparr>Apertura := group_m m 1\<rparr>, None))"

definition extraer_cierre :: "string \<Rightarrow> sentencia" where
  "extraer_cierre texto d =
     (case search patron_cierre texto of
        None \<Rightarrow> (d, None)
      | Some m \<Rightarrow> (d\<lparr>Cierre := group_m m 1\<rparr>, None))"

text \<open>
  In the invoice section \<open>V_Bruta\<close> is assigned before the conversion of the second group is
  evaluated.
\<close>

definition extraer_facturas :: "string \<Rightarrow> sentencia" where
  "extraer_facturas texto d =
     (case search patron_seccion_facturas texto of
        None \<Rightarrow> (d, None)
      | Some m \<Rightarrow>
          (case entero m 1 of
             Inl e \<Rightarrow> (d, Some e)
           | Inr v \<Rightarrow>
               (case entero m 2 of
                  Inl e \<Rightarrow> (d\<lparr>V_Bruta := v\<rparr>, Some e)
                | Inr w \<Rightarrow> (d\<lparr>V_Bruta := v, Total' := w\<rparr>, None))))"

definition extraer_efectivo :: "string \<Rightarrow> sentencia" where
  "extraer_efectivo texto d =
     (case search patron_efectivo texto of
        None \<Rightarrow> (d, None)
      | Some m \<Rightarrow>
          (case entero m 1 of
             Inl e \<Rightarrow> (d, Some e)
           | Inr v \<Rightarrow> (d\<lparr>Efectivo := v\<rparr>, None)))"

definition extraer_datafono :: "string \<Rightarrow> sentencia" where
  "extraer_datafono texto d =
     (case search patron_datafono texto of
        None \<Rightarrow> (d, None)
      | Some m \<Rightarrow>
          (case entero m 1 of
             Inl e \<Rightarrow> (d, Some e)
           | Inr v \<Rightarrow> (d\<lparr>Datafono := v\<rparr>, None)))"

definition extraer_egresos :: "string \<Rightarrow> sentencia" where
  "extraer_egresos texto d =
     (case search patron_egresos texto of
        None \<Rightarrow> (d, None)
      | Some m \<Rightarrow>
          (case entero m 1 of
             Inl e \<Rightarrow> (d, Some e)
           | Inr v \<Rightarrow> (d\<lparr>Total_Egresos := v\<rparr>, None)))"

definition extraer_diferencia :: "string \<Rightarrow> sentencia" where
  "extraer_diferencia texto d =
     (case search patron_diferencia texto of
        None \<Rightarrow> (d, None)
      | Some m \<Rightarrow>
          (case entero m 1 of
             Inl e \<Rightarrow> (d, Some e)
           | Inr v \<Rightarrow> (d\<lparr>Diferencia := v\<rparr>, None)))"

definition extraer_datos_pdf :: "string \<Rightarrow> datos \<times> excepcion option" where
  "extraer_datos_pdf contenido_texto =
     ejecutar
       [extraer_apertura contenido_texto,
        extraer_cierre contenido_texto,
        extraer_facturas contenido_texto,
        extraer_efectivo contenido_texto,
        extraer_datafono contenido_texto,
        extraer_egresos contenido_texto,
        extraer_diferencia contenido_texto]
       datos_iniciales"

section \<open>Reading a document and the batch loop\<close>

text \<open>
  \<^verbatim>\<open>
  def procesar_pdf(archivo_pdf):
      try:
          texto_completo = ""
          with pdfplumber.open(archivo_pdf) as pdf:
              for pagina in pdf.pages:
                  texto_completo += pagina.extract_text() + "\n"
          return extraer_datos_pdf(texto_completo)
      except Exception as e:
          st.error(f"Error al procesar PDF: {e}")
          return None
  \<close>
  The PDF library is outside the repository. What it does with an uploaded file is the
  parameter \<open>abrir\<close>: the exception that opening the file or listing its pages raises, or
  the pages; for each page \<open>extract_text\<close> raises, returns \<open>None\<close> (adding a string to it
  raises \<open>TypeError\<close>) or returns the text. The second component of the result is the
  list of the errors reported with \<open>st.error\<close>.
\<close>

type_synonym pagina = "excepcion + string option"

fun texto_paginas :: "string \<Rightarrow> pagina list \<Rightarrow> excepcion + string" where
  "texto_paginas texto_completo [] = Inr texto_completo"
| "texto_paginas texto_completo (Inl e # paginas) = Inl e"
| "texto_paginas texto_completo (Inr None # paginas) = Inl TypeError"
| "texto_paginas texto_completo (Inr (Some t) # paginas) =
     texto_paginas (texto_completo @ t @ [CHR 0x0A]) paginas"

definition procesar_pdf ::
  "('f \<Rightarrow> excepcion + pagina list) \<Rightarrow> 'f \<Rightarrow> datos option \<times> excepcion list" where
  "procesar_pdf abrir archivo_pdf =
     (case abrir archivo_pdf of
        Inl e \<Rightarrow> (None, [e])
      | Inr paginas \<Rightarrow>
          (case texto_paginas [] paginas of
             Inl e \<Rightarrow> (None, [e])
           | Inr texto_completo \<Rightarrow>
               (case extraer_datos_pdf texto_completo of
                  (datos, None) \<Rightarrow> (Some datos, [])
                | (datos, Some e) \<Rightarrow> (Some datos, [e]))))"

text \<open>
  \<^verbatim>\<open>
  resultados = []
  errores = []
  for idx, uploaded_file in enumerate(uploaded_files):
      ...
      datos = procesar_pdf(uploaded_file)
      if datos:
          datos['Archivo'] = uploaded_file.name
          resultados.append(datos)
      else:
          errores.append(uploaded_file.name)
  \<close>
  A row of \<open>resultados\<close> is the record with the key \<open>Archivo\<close> added. The dictionary of
  eight keys is true and \<open>None\<close> is false in the test. \<open>procesar_archivo\<close> is the body of
  the loop and \<open>procesar_archivos\<close> the loop; the attribute \<open>name\<close> of an uploaded file is
  a parameter.
\<close>

record fila = datos +
  Archivo :: string

definition procesar_archivo ::
  "('f \<Rightarrow> excepcion + pagina list) \<Rightarrow> ('f \<Rightarrow> string)
   \<Rightarrow> fila list \<times> string list \<Rightarrow> 'f \<Rightarrow> fila list \<times> string list" where
  "procesar_archivo abrir name acc uploaded_file =
     (case acc of (resultados, errores) \<Rightarrow>
        (case fst (procesar_pdf abrir uploaded_file) of
           Some datos \<Rightarrow>
             (resultados @ [datos.extend datos (fila.fields (name uploaded_file))], errores)
         | None \<Rightarrow> (resultados, errores @ [name uploaded_file])))"

definition procesar_archivos ::
  "('f \<Rightarrow> excepcion + pagina list) \<Rightarrow> ('f \<Rightarrow> string) \<Rightarrow> 'f list
   \<Rightarrow> fila list \<times> string list" where
  "procesar_archivos abrir name uploaded_files =
     foldl (procesar_archivo abrir name) ([], []) uploaded_files"

section \<open>Predicates for stating the properties\<close>

text \<open>
  \<open>no_match_in p a t\<close>: in the text \<open>a @ t\<close> the pattern \<open>p\<close> matches at no position of
  \<open>a\<close>. \<open>es_espacios\<close>: a run of white space. \<open>es_monto\<close>: an amount, a run of digits and
  commas with at least one digit and no more digits than \<open>int\<close> converts. \<open>fin_monto t\<close>: an amount that stands before \<open>t\<close> ends
  there. \<open>es_signo\<close>: the optional currency sign. \<open>stops k t\<close>: a run of the class \<open>k\<close> that
  stands before \<open>t\<close> ends there.
\<close>

fun no_match_in :: "item list \<Rightarrow> string \<Rightarrow> string \<Rightarrow> bool" where
  "no_match_in p [] t = True"
| "no_match_in p (c # a) t = (rmatch p (c # a @ t) = None \<and> no_match_in p a t)"

definition es_espacios :: "string \<Rightarrow> bool" where
  "es_espacios w = list_all is_space w"

definition es_monto :: "string \<Rightarrow> bool" where
  "es_monto n =
     (list_all (\<lambda>c. is_digit c \<or> c = CHR '','') n \<and> list_ex is_digit n
      \<and> length (filter is_digit n) \<le> max_str_digits)"

definition fin_monto :: "string \<Rightarrow> bool" where
  "fin_monto t = (case t of [] \<Rightarrow> True | c # _ \<Rightarrow> \<not> (is_digit c \<or> c = CHR '',''))"

definition es_signo :: "string \<Rightarrow> bool" where
  "es_signo d = (d = [] \<or> d = ''$'')"


definition stops :: "cls \<Rightarrow> string \<Rightarrow> bool" where
  "stops k t = (case t of [] \<Rightarrow> True | c # _ \<Rightarrow> \<not> in_cls k c)"

text \<open>
  \<open>n_marks p\<close>: the number of marks of a pattern. \<open>splits_at q n s ms\<close>: the marks \<open>ms\<close> are
  \<open>n\<close> marks followed by the marks of a match of \<open>q\<close> at some position of \<open>s\<close>.
  \<open>solo_monto\<close>: a run of digits and commas, as the group of \<open>numero\<close> captures it.
\<close>

definition n_marks :: "item list \<Rightarrow> nat" where
  "n_marks p = length (filter (\<lambda>i. i = Mark) p)"

definition splits_at :: "item list \<Rightarrow> nat \<Rightarrow> string \<Rightarrow> string list \<Rightarrow> bool" where
  "splits_at q n s ms =
     (\<exists>k ms1 ms2. ms = ms1 @ ms2 \<and> length ms1 = n \<and> rmatch q (drop k s) = Some ms2)"

definition solo_monto :: "string \<Rightarrow> bool" where
  "solo_monto g = (g \<noteq> [] \<and> list_all (\<lambda>c. is_digit c \<or> c = CHR '','') g)"

text \<open>
  What one field gets from its own pattern alone: the captured text of a time field
  (empty without a match), and the outcome of the conversion of a monetary group (\<open>0\<close>
  without a match). \<open>conversiones\<close> lists the six conversions in the order of the \<open>try\<close>
  block, \<open>campos\<close> the six monetary fields in the same order. \<open>asignados\<close> gives the
  values of the conversions before the first that raises, and that exception.
\<close>

definition hora :: "item list \<Rightarrow> string \<Rightarrow> string" where
  "hora p texto = (case search p texto of None \<Rightarrow> [] | Some m \<Rightarrow> group_m m 1)"

definition monto :: "item list \<Rightarrow> nat \<Rightarrow> string \<Rightarrow> excepcion + int" where
  "monto p n texto = (case search p texto of None \<Rightarrow> Inr 0 | Some m \<Rightarrow> entero m n)"

definition conversiones :: "string \<Rightarrow> (excepcion + int) list" where
  "conversiones texto =
     [monto patron_seccion_facturas 1 texto, monto patron_seccion_facturas 2 texto,
      monto patron_efectivo 1 texto, monto patron_datafono 1 texto,
      monto patron_egresos 1 texto, monto patron_diferencia 1 texto]"

definition campos :: "datos \<Rightarrow> int list" where
  "campos d = [V_Bruta d, Total' d, Efectivo d, Datafono d, Total_Egresos d, Diferencia d]"

fun asignados :: "(excepcion + int) list \<Rightarrow> int list \<times> excepcion option" where
  "asignados [] = ([], None)"
| "asignados (Inl e # cs) = ([], Some e)"
| "asignados (Inr v # cs) = (v # fst (asignados cs), snd (asignados cs))"

text \<open>
  \<open>rellenos\<close>: the six monetary fields after the block, the assigned values followed by
  the default \<open>0\<close> from the conversion that raised on.
\<close>

definition rellenos :: "(excepcion + int) list \<Rightarrow> int list" where
  "rellenos cs =
     fst (asignados cs) @ replicate (length cs - length (fst (asignados cs))) 0"

text \<open>\<open>es_digitos n s\<close>: \<open>s\<close> is a run of \<open>n\<close> digits.\<close>

definition es_digitos :: "nat \<Rightarrow> string \<Rightarrow> bool" where
  "es_digitos n s = (length s = n \<and> list_all is_digit s)"

text \<open>
  \<open>falla abrir f\<close>: the text of the document \<open>f\<close> cannot be obtained, because the file
  cannot be opened as a PDF or because \<open>extract_text\<close> raises or returns \<open>None\<close> on one of
  its pages.
\<close>

definition pagina_falla :: "pagina \<Rightarrow> bool" where
  "pagina_falla p = (case p of Inl e \<Rightarrow> True | Inr None \<Rightarrow> True | Inr (Some t) \<Rightarrow> False)"

definition falla :: "('f \<Rightarrow> excepcion + pagina list) \<Rightarrow> 'f \<Rightarrow> bool" where
  "falla abrir f = (case abrir f of Inl e \<Rightarrow> True | Inr paginas \<Rightarrow> list_ex pagina_falla paginas)"

text \<open>
  \<open>primer_medio nombre a f w d n r\<close>: in the text made of \<open>a\<close>, the label \<open>Medio :\<close> with
  the name of the means, \<open>f\<close>, \<open>Val. Ventas :\<close>, the white space \<open>w\<close>, the optional sign
  \<open>d\<close>, the amount \<open>n\<close> and \<open>r\<close>, that label is the leftmost match of the label of this
  means, no match of the \<open>Val. Ventas :\<close> fragment starts in \<open>f\<close>, and the amount ends
  where \<open>r\<close> begins. \<open>facturas_sin_error\<close>: when the pattern of the invoice section
  matches, its two conversions do not raise.
\<close>

definition primer_medio ::
  "string \<Rightarrow> string \<Rightarrow> string \<Rightarrow> string \<Rightarrow> string \<Rightarrow> string \<Rightarrow> string \<Rightarrow> bool" where
  "primer_medio nombre a f w d n r =
     (no_match_in (pat_medio nombre) a
        (''Medio : '' @ nombre @ f @ ''Val. Ventas :'' @ w @ d @ n @ r)
      \<and> no_match_in pat_val_ventas f (''Val. Ventas :'' @ w @ d @ n @ r)
      \<and> es_espacios w \<and> es_signo d \<and> es_monto n \<and> fin_monto r)"

definition facturas_sin_error :: "string \<Rightarrow> bool" where
  "facturas_sin_error texto =
     (\<forall>m. search patron_seccion_facturas texto = Some m
          \<longrightarrow> (\<exists>v w. entero m 1 = Inr v \<and> entero m 2 = Inr w))"

section \<open>Lemmas on the matcher\<close>

lemma rmatch_append_None: "rmatch p s = None \<Longrightarrow> rmatch (p @ q) s = None"
  by (induction p s rule: rmatch.induct) (simp_all split: if_splits option.splits)

lemma rmatch_lit: "rmatch (lit w @ r) s = (if prefix w s then rmatch r (drop (length w) s) else None)"
proof (induction w arbitrary: s)
  case Nil
  then show ?case by (simp add: lit_def)
next
  case (Cons a w)
  then show ?case by (cases s) (auto simp: lit_def in_cls_def)
qed

lemma rmatch_star_run:
  "\<forall>x\<in>set w. in_cls k x \<Longrightarrow> stops k t \<Longrightarrow> rmatch r t = Some m
   \<Longrightarrow> rmatch (Rep k Star # r) (w @ t) = Some m"
  by (induction w) (auto simp: stops_def split: list.splits)

lemma rmatch_plus_run:
  "w \<noteq> [] \<Longrightarrow> \<forall>x\<in>set w. in_cls k x \<Longrightarrow> stops k t \<Longrightarrow> rmatch r t = Some m
   \<Longrightarrow> rmatch (Rep k Plus # r) (w @ t) = Some m"
  by (cases w) (auto simp: rmatch_star_run)

lemma rmatch_times_run:
  "length w = n \<Longrightarrow> \<forall>x\<in>set w. in_cls k x \<Longrightarrow> rmatch (Rep k (Times n) # r) (w @ t) = rmatch r t"
  by (induction w arbitrary: n) auto

lemma rmatch_cualquiera: "rmatch (cualquiera # r) s = search r s"
  by (induction s) (auto simp: cualquiera_def in_cls_def split: option.splits)

lemma search_skip: "no_match_in p a t \<Longrightarrow> search p (a @ t) = search p t"
  by (induction a) simp_all

lemma search_here: "rmatch p t = Some m \<Longrightarrow> search p t = Some m"
  by (cases t) auto

lemma no_match_in_append: "no_match_in p a t \<Longrightarrow> no_match_in (p @ q) a t"
  by (induction a) (simp_all add: rmatch_append_None)

lemma search_first:
  "no_match_in p a t \<Longrightarrow> rmatch (p @ q) t = Some m \<Longrightarrow> search (p @ q) (a @ t) = Some m"
  by (simp add: search_skip no_match_in_append search_here)

lemma rmatch_espacios:
  assumes "es_espacios w" "stops [Space] t" "rmatch r t = Some m"
  shows "rmatch (espacios # r) (w @ t) = Some m"
  unfolding espacios_def
  by (rule rmatch_star_run) (use assms in \<open>auto simp: es_espacios_def list_all_iff in_cls_def\<close>)

lemma monto_nonempty: "es_monto n \<Longrightarrow> n \<noteq> []"
  by (auto simp: es_monto_def)

lemma monto_in_cls: "es_monto n \<Longrightarrow> \<forall>x\<in>set n. in_cls [Digit, Chr CHR '',''] x"
  by (auto simp: es_monto_def list_all_iff in_cls_def)

lemma fin_monto_stops: "fin_monto t \<Longrightarrow> stops [Digit, Chr CHR '',''] t"
  by (auto simp: fin_monto_def stops_def in_cls_def split: list.splits)

lemma monto_hd: "es_monto n \<Longrightarrow> \<exists>c n'. n = c # n' \<and> (is_digit c \<or> c = CHR '','')"
  by (cases n) (auto simp: es_monto_def)

lemma digit_not_space: "is_digit c \<Longrightarrow> \<not> is_space c"
  by (auto simp: is_digit_def is_space_def Let_def)

lemma digit_not_dollar: "is_digit c \<Longrightarrow> c \<noteq> CHR ''$''"
  by (auto simp: is_digit_def Let_def)

lemma rmatch_numero:
  assumes "es_signo d" "es_monto n" "fin_monto t" "rmatch r t = Some m"
  shows "rmatch (numero @ r) (d @ n @ t) = Some ((n @ t) # t # m)"
proof -
  have run: "rmatch (Rep [Digit, Chr CHR '',''] Plus # Mark # r) (n @ t) = Some (t # m)"
    by (rule rmatch_plus_run) (use assms in \<open>simp_all add: monto_nonempty monto_in_cls fin_monto_stops\<close>)
  then have grp: "rmatch (Mark # Rep [Digit, Chr CHR '',''] Plus # Mark # r) (n @ t) = Some ((n @ t) # t # m)"
    by simp
  show ?thesis
  proof (cases "d = []")
    case True
    obtain c n' where n: "n = c # n'" "is_digit c \<or> c = CHR '',''"
      using monto_hd[OF assms(2)] by blast
    then have "c \<noteq> CHR ''$''" by (auto dest: digit_not_dollar)
    then show ?thesis using grp n True by (simp add: numero_def in_cls_def)
  next
    case False
    then have "d = ''$''" using assms(1) by (simp add: es_signo_def)
    then show ?thesis using grp by (simp add: numero_def in_cls_def)
  qed
qed

lemma stops_space_numero: "es_signo d \<Longrightarrow> es_monto n \<Longrightarrow> stops [Space] (d @ n @ t)"
proof -
  assume a: "es_signo d" "es_monto n"
  obtain c n' where n: "n = c # n'" "is_digit c \<or> c = CHR '',''"
    using monto_hd[OF a(2)] by blast
  then have "\<not> is_space c" by (auto dest: digit_not_space simp: is_space_def)
  then show ?thesis using a(1) n by (auto simp: es_signo_def stops_def in_cls_def is_space_def)
qed

lemma rmatch_espacios_numero:
  assumes "es_espacios w" "es_signo d" "es_monto n" "fin_monto t" "rmatch r t = Some m"
  shows "rmatch (espacios # numero @ r) (w @ d @ n @ t) = Some ((n @ t) # t # m)"
  by (rule rmatch_espacios) (use assms in \<open>simp_all add: stops_space_numero rmatch_numero\<close>)

lemma rmatch_total:
  assumes "es_espacios w1" "es_espacios w2" "es_signo d" "es_monto n" "fin_monto t"
    and "rmatch r t = Some m"
  shows "rmatch (pat_total @ r) (''Total'' @ w1 @ '':'' @ w2 @ d @ n @ t) = Some ((n @ t) # t # m)"
proof -
  have a: "rmatch (espacios # numero @ r) (w2 @ d @ n @ t) = Some ((n @ t) # t # m)"
    using assms by (simp add: rmatch_espacios_numero)
  have b: "rmatch (espacios # lit '':'' @ espacios # numero @ r) (w1 @ '':'' @ w2 @ d @ n @ t)
        = Some ((n @ t) # t # m)"
    by (rule rmatch_espacios) (use assms(1) a in \<open>simp_all add: rmatch_lit stops_def in_cls_def is_space_def\<close>)
  show ?thesis using b by (simp add: pat_total_def rmatch_lit)
qed

lemma rmatch_v_bruta:
  assumes "es_espacios w1" "es_espacios w2" "es_espacios w3" "es_signo d" "es_monto n" "fin_monto t"
    and "rmatch r t = Some m"
  shows "rmatch (pat_v_bruta @ r) (''V.'' @ w1 @ ''Bruta'' @ w2 @ '':'' @ w3 @ d @ n @ t)
       = Some ((n @ t) # t # m)"
proof -
  have a: "rmatch (espacios # numero @ r) (w3 @ d @ n @ t) = Some ((n @ t) # t # m)"
    using assms by (simp add: rmatch_espacios_numero)
  have b: "rmatch (espacios # lit '':'' @ espacios # numero @ r) (w2 @ '':'' @ w3 @ d @ n @ t)
        = Some ((n @ t) # t # m)"
    by (rule rmatch_espacios) (use assms(2) a in \<open>simp_all add: rmatch_lit stops_def in_cls_def is_space_def\<close>)
  have c: "rmatch (espacios # lit ''Bruta'' @ espacios # lit '':'' @ espacios # numero @ r)
             (w1 @ ''Bruta'' @ w2 @ '':'' @ w3 @ d @ n @ t) = Some ((n @ t) # t # m)"
    by (rule rmatch_espacios) (use assms(1) b in \<open>simp_all add: rmatch_lit stops_def in_cls_def is_space_def\<close>)
  show ?thesis using c by (simp add: pat_v_bruta_def rmatch_lit)
qed

section \<open>Lemmas on the normalizer, the conversion and the statements\<close>

lemma replace_empty: "replace c [] s = filter (\<lambda>x. x \<noteq> c) s"
  by (induction s) (simp_all add: replace_def)

lemma strip_no_space: "\<forall>c\<in>set s. \<not> is_space c \<Longrightarrow> strip s = s"
proof -
  assume a: "\<forall>c\<in>set s. \<not> is_space c"
  have d: "dropWhile is_space u = u" if "\<forall>c\<in>set u. \<not> is_space c" for u
    using that by (cases u) simp_all
  show ?thesis using a by (simp add: strip_def d)
qed

lemma int_digits_decimal:
  "\<forall>c\<in>set s. is_digit c \<Longrightarrow> int_digits acc s = Some (foldl (\<lambda>a c. a * 10 + digit_val c) acc s)"
  by (induction s arbitrary: acc) simp_all

lemma digit_not_sign: "is_digit c \<Longrightarrow> c \<noteq> CHR ''-'' \<and> c \<noteq> CHR ''+''"
  by (auto simp: is_digit_def Let_def)

lemma digit_not_int_space: "is_digit c \<Longrightarrow> \<not> is_int_space c"
  by (auto simp: is_digit_def is_int_space_def Let_def)

lemma int_strip_no_space: "\<forall>c\<in>set s. \<not> is_int_space c \<Longrightarrow> int_strip s = s"
proof -
  assume a: "\<forall>c\<in>set s. \<not> is_int_space c"
  have d: "dropWhile is_int_space u = u" if "\<forall>c\<in>set u. \<not> is_int_space c" for u
    using that by (cases u) simp_all
  show ?thesis using a by (simp add: int_strip_def d)
qed

lemma py_int_digits:
  assumes "s \<noteq> []" "\<forall>c\<in>set s. is_digit c"
  shows "py_int s = (if max_str_digits < length s then Inl (ValueError s) else Inr (decimal s))"
proof -
  obtain c cs where s: "s = c # cs" using assms(1) by (cases s) auto
  have "int_strip s = s"
    using assms(2) by (auto intro: int_strip_no_space dest: digit_not_int_space)
  moreover have "is_digit c" using assms(2) s by simp
  moreover have "int_digits 0 s = Some (decimal s)"
    using assms(2) by (simp add: int_digits_decimal decimal_def)
  moreover have "filter is_digit s = s"
    using assms(2) by simp
  ultimately show ?thesis
    using s digit_not_sign[of c] by (simp add: py_int_def int_unsigned_def)
qed

text \<open>A literal of 4301 digits is over the limit.\<close>

lemma py_int_limite:
  "py_int (replicate 4301 CHR ''1'') = Inl (ValueError (replicate 4301 CHR ''1''))"
proof -
  have "\<forall>c\<in>set (replicate 4301 CHR ''1''). is_digit c"
    by (simp add: is_digit_def)
  moreover have "replicate 4301 CHR ''1'' \<noteq> []"
    by simp
  ultimately show ?thesis
    by (simp add: py_int_digits max_str_digits_def)
qed

lemma limpiar_monto:
  assumes "es_monto n"
  shows "limpiar_valor_monetario (Some n) = filter is_digit n"
proof -
  have f: "filter (\<lambda>x. x \<noteq> CHR '','') (filter (\<lambda>x. x \<noteq> CHR ''$'') n) = filter is_digit n"
    unfolding filter_filter
    by (rule filter_cong) (use assms in \<open>auto simp: es_monto_def list_all_iff is_digit_def Let_def\<close>)
  have "strip (filter is_digit n) = filter is_digit n"
    by (rule strip_no_space) (auto dest: digit_not_space)
  then show ?thesis
    using monto_nonempty[OF assms] by (simp add: limpiar_valor_monetario_def replace_empty f del: filter_filter)
qed

lemma py_int_monto:
  "es_monto n \<Longrightarrow> py_int (limpiar_valor_monetario (Some n)) = Inr (decimal (filter is_digit n))"
proof -
  assume a: "es_monto n"
  have "filter is_digit n \<noteq> []"
    using a by (auto simp: es_monto_def list_ex_iff filter_empty_conv)
  moreover have "length (filter is_digit n) \<le> max_str_digits"
    using a by (simp add: es_monto_def)
  ultimately show ?thesis by (simp add: limpiar_monto[OF a] py_int_digits)
qed

lemma group_1: "group_m ((n @ t) # t # m) 1 = n"
  by (simp add: group_m_def)

lemma group_2: "group_m (a # b # (n @ t) # t # m) 2 = n"
  by (simp add: group_m_def)

text \<open>Steps that leave a field alone.\<close>

lemma ejecutar_keeps:
  "(\<And>f d. f \<in> set fs \<Longrightarrow> F (fst (f d)) = F d) \<Longrightarrow> F (fst (ejecutar fs d)) = F d"
proof (induction fs arbitrary: d)
  case Nil
  then show ?case by simp
next
  case (Cons f fs)
  have a: "F (fst (f d)) = F d" using Cons.prems by simp
  show ?case
  proof (cases "f d")
    case (Pair d' e)
    then show ?thesis using a Cons by (cases e) (auto)
  qed
qed

lemma apertura_snd: "snd (extraer_apertura t d) = None"
  by (simp add: extraer_apertura_def split: option.splits)

lemma cierre_snd: "snd (extraer_cierre t d) = None"
  by (simp add: extraer_cierre_def split: option.splits)

lemma ejecutar_Cons_ok: "snd (f d) = None \<Longrightarrow> ejecutar (f # fs) d = ejecutar fs (fst (f d))"
  by (cases "f d") auto

lemma ejecutar_Cons_raise: "snd (f d) = Some e \<Longrightarrow> ejecutar (f # fs) d = (fst (f d), Some e)"
  by (cases "f d") auto

lemma keeps_montos:
  "V_Bruta (fst (extraer_efectivo t d)) = V_Bruta d"
  "V_Bruta (fst (extraer_datafono t d)) = V_Bruta d"
  "V_Bruta (fst (extraer_egresos t d)) = V_Bruta d"
  "V_Bruta (fst (extraer_diferencia t d)) = V_Bruta d"
  "Total' (fst (extraer_efectivo t d)) = Total' d"
  "Total' (fst (extraer_datafono t d)) = Total' d"
  "Total' (fst (extraer_egresos t d)) = Total' d"
  "Total' (fst (extraer_diferencia t d)) = Total' d"
  by (simp_all add: extraer_efectivo_def extraer_datafono_def extraer_egresos_def
      extraer_diferencia_def split: option.splits sum.splits)

lemma facturas_fields:
  assumes "search patron_seccion_facturas t = Some m" "entero m 1 = Inr v" "entero m 2 = Inr w"
  shows "V_Bruta (fst (extraer_datos_pdf t)) = v \<and> Total' (fst (extraer_datos_pdf t)) = w"
proof -
  let ?rest = "[extraer_efectivo t, extraer_datafono t, extraer_egresos t, extraer_diferencia t]"
  define d2 where "d2 = fst (extraer_cierre t (fst (extraer_apertura t datos_iniciales)))"
  have f: "extraer_facturas t d2 = (d2\<lparr>V_Bruta := v, Total' := w\<rparr>, None)"
    using assms by (simp add: extraer_facturas_def)
  have e: "extraer_datos_pdf t = ejecutar ?rest (d2\<lparr>V_Bruta := v, Total' := w\<rparr>)"
    unfolding extraer_datos_pdf_def
    by (simp add: ejecutar_Cons_ok apertura_snd cierre_snd d2_def[symmetric] f del: ejecutar.simps)
  have "V_Bruta (fst (ejecutar ?rest d)) = V_Bruta d" for d
    by (rule ejecutar_keeps) (auto simp: keeps_montos)
  moreover have "Total' (fst (ejecutar ?rest d)) = Total' d" for d
    by (rule ejecutar_keeps) (auto simp: keeps_montos)
  ultimately show ?thesis by (simp add: e)
qed

lemma fin_monto_append: "fin_monto a \<Longrightarrow> fin_monto b \<Longrightarrow> fin_monto (a @ b)"
  by (cases a) (simp_all add: fin_monto_def)

lemma digit_not_comma: "is_digit c \<Longrightarrow> c \<noteq> CHR '',''"
  by (auto simp: is_digit_def Let_def)

lemma filter_dropWhile_disjoint:
  "(\<And>x. P x \<Longrightarrow> \<not> Q x) \<Longrightarrow> filter P (dropWhile Q s) = filter P s"
  by (induction s) auto

lemma filter_digit_strip: "filter is_digit (strip s) = filter is_digit s"
proof -
  have "filter is_digit (strip s)
          = rev (filter is_digit (dropWhile is_space (rev (dropWhile is_space s))))"
    by (simp add: strip_def rev_filter)
  also have "\<dots> = rev (filter is_digit (rev (dropWhile is_space s)))"
    by (simp add: filter_dropWhile_disjoint digit_not_space)
  also have "\<dots> = filter is_digit (dropWhile is_space s)"
    by (simp add: rev_filter)
  also have "\<dots> = filter is_digit s"
    by (simp add: filter_dropWhile_disjoint digit_not_space)
  finally show ?thesis .
qed

lemma n_marks_simps [simp]:
  "n_marks [] = 0" "n_marks (Mark # p) = Suc (n_marks p)" "n_marks (Rep k q # p) = n_marks p"
  "n_marks (p @ p') = n_marks p + n_marks p'"
  by (simp_all add: n_marks_def)

lemma n_marks_lit [simp]: "n_marks (lit w) = 0"
  by (induction w) (simp_all add: lit_def n_marks_def)

lemma splits_at_Cons: "splits_at q n cs ms \<Longrightarrow> splits_at q n (c # cs) ms"
proof -
  assume "splits_at q n cs ms"
  then obtain k ms1 ms2 where
    "ms = ms1 @ ms2" "length ms1 = n" "rmatch q (drop k cs) = Some ms2"
    unfolding splits_at_def by blast
  then show ?thesis
    unfolding splits_at_def by (intro exI[of _ "Suc k"] exI[of _ ms1] exI[of _ ms2]) simp
qed

lemma splits_at_Mark: "splits_at q n s ms \<Longrightarrow> splits_at q (Suc n) s (s # ms)"
proof -
  assume "splits_at q n s ms"
  then obtain k ms1 ms2 where
    "ms = ms1 @ ms2" "length ms1 = n" "rmatch q (drop k s) = Some ms2"
    unfolding splits_at_def by blast
  then show ?thesis
    unfolding splits_at_def by (intro exI[of _ k] exI[of _ "s # ms1"] exI[of _ ms2]) simp
qed

lemma splits_at_here: "rmatch q s = Some ms \<Longrightarrow> splits_at q 0 s ms"
  unfolding splits_at_def by (intro exI[of _ 0] exI[of _ "[]"] exI[of _ ms]) simp

lemma rmatch_append_Some:
  "rmatch (p @ q) s = Some ms \<Longrightarrow> splits_at q (n_marks p) s ms"
proof (induction p arbitrary: s ms)
  case Nil
  then show ?case by (simp add: splits_at_here)
next
  case (Cons i r)
  note IH = Cons.IH
  show ?case
  proof (cases i)
    case Mark
    then show ?thesis using Cons.prems IH by (auto intro: splits_at_Mark)
  next
    case (Rep k qu)
    have star: "rmatch (Rep k Star # r @ q) u = Some ms \<Longrightarrow> splits_at q (n_marks r) u ms" for u ms
    proof (induction u)
      case Nil
      then show ?case using IH by simp
    next
      case (Cons c cs)
      then show ?case using IH
        by (auto split: if_splits option.splits intro: splits_at_Cons)
    qed
    have lazy: "rmatch (Rep k LazyStar # r @ q) u = Some ms \<Longrightarrow> splits_at q (n_marks r) u ms" for u ms
    proof (induction u)
      case Nil
      then show ?case using IH by simp
    next
      case (Cons c cs)
      then show ?case using IH
        by (auto split: if_splits option.splits intro: splits_at_Cons)
    qed
    have times: "rmatch (Rep k (Times n) # r @ q) u = Some ms \<Longrightarrow> splits_at q (n_marks r) u ms" for u ms n
    proof (induction n arbitrary: u)
      case 0
      then show ?case using IH by simp
    next
      case (Suc n)
      then show ?case by (cases u) (auto split: if_splits intro: splits_at_Cons)
    qed
    show ?thesis
    proof (cases qu)
      case One
      then show ?thesis using Cons.prems IH Rep
        by (cases s) (auto split: if_splits intro: splits_at_Cons)
    next
      case (Times n)
      then show ?thesis using Cons.prems Rep times by simp
    next
      case Star
      then show ?thesis using Cons.prems Rep star by simp
    next
      case Plus
      then show ?thesis using Cons.prems Rep star
        by (cases s) (auto split: if_splits intro: splits_at_Cons)
    next
      case Opt
      then show ?thesis using Cons.prems IH Rep
        by (cases s) (auto split: if_splits option.splits intro: splits_at_Cons)
    next
      case LazyStar
      then show ?thesis using Cons.prems Rep lazy by simp
    qed
  qed
qed

text \<open>What a greedy run has taken.\<close>

lemma rmatch_star_Some:
  "rmatch (Rep k Star # r) s = Some m \<Longrightarrow>
   \<exists>g v. s = g @ v \<and> (\<forall>x\<in>set g. in_cls k x) \<and> rmatch r v = Some m"
proof (induction s)
  case Nil
  then show ?case by simp
next
  case (Cons c cs)
  show ?case
  proof (cases "in_cls k c \<and> rmatch (Rep k Star # r) cs = Some m")
    case True
    with Cons.IH obtain g v where "cs = g @ v" "\<forall>x\<in>set g. in_cls k x" "rmatch r v = Some m"
      by blast
    then show ?thesis using True by (intro exI[of _ "c # g"] exI[of _ v]) simp
  next
    case False
    then have "rmatch r (c # cs) = Some m"
      using Cons.prems by (auto split: if_splits option.splits)
    then show ?thesis by (intro exI[of _ "[]"] exI[of _ "c # cs"]) simp
  qed
qed

lemma rmatch_plus_Some:
  "rmatch (Rep k Plus # r) s = Some m \<Longrightarrow>
   \<exists>g v. s = g @ v \<and> g \<noteq> [] \<and> (\<forall>x\<in>set g. in_cls k x) \<and> rmatch r v = Some m"
proof (cases s)
  case Nil
  assume "rmatch (Rep k Plus # r) s = Some m"
  then show ?thesis using Nil by simp
next
  case (Cons c cs)
  assume "rmatch (Rep k Plus # r) s = Some m"
  then have a: "in_cls k c" "rmatch (Rep k Star # r) cs = Some m"
    using Cons by (auto split: if_splits)
  from rmatch_star_Some[OF a(2)] obtain g v where
    "cs = g @ v" "\<forall>x\<in>set g. in_cls k x" "rmatch r v = Some m" by blast
  then show ?thesis using a(1) Cons by (intro exI[of _ "c # g"] exI[of _ v]) simp
qed

lemma rmatch_numero_Some:
  assumes "rmatch (numero @ r) s = Some ms"
  shows "\<exists>g v ms'. ms = (g @ v) # v # ms' \<and> solo_monto g"
proof -
  have grp: "\<exists>g v ms'. ms = (g @ v) # v # ms' \<and> solo_monto g"
    if "rmatch (Mark # Rep [Digit, Chr CHR '',''] Plus # Mark # r) u = Some ms" for u
  proof -
    from that obtain ms1 where ms1: "ms = u # ms1"
      "rmatch (Rep [Digit, Chr CHR '',''] Plus # Mark # r) u = Some ms1" by auto
    from rmatch_plus_Some[OF ms1(2)] obtain g v where
      g: "u = g @ v" "g \<noteq> []" "\<forall>x\<in>set g. in_cls [Digit, Chr CHR '',''] x"
      "rmatch (Mark # r) v = Some ms1" by blast
    from g(4) obtain ms' where "ms1 = v # ms'" by auto
    moreover have "solo_monto g"
      using g(2,3) by (auto simp: solo_monto_def list_all_iff in_cls_def)
    ultimately show ?thesis using ms1(1) g(1) by blast
  qed
  show ?thesis
  proof (cases s)
    case Nil
    then show ?thesis using assms grp[of "[]"] by (simp add: numero_def)
  next
    case (Cons c cs)
    then have "rmatch (Mark # Rep [Digit, Chr CHR '',''] Plus # Mark # r) cs = Some ms
       \<or> rmatch (Mark # Rep [Digit, Chr CHR '',''] Plus # Mark # r) (c # cs) = Some ms"
      using assms by (auto simp: numero_def split: if_splits option.splits)
    then show ?thesis using grp by blast
  qed
qed

lemma search_Some_drop: "search p s = Some m \<Longrightarrow> \<exists>i\<le>length s. rmatch p (drop i s) = Some m"
proof (induction s)
  case Nil
  then show ?case by simp
next
  case (Cons x s)
  show ?case
  proof (cases "rmatch p (x # s)")
    case None
    with Cons obtain i where "i \<le> length s" "rmatch p (drop i s) = Some m" by auto
    then show ?thesis by (intro exI[of _ "Suc i"]) simp
  next
    case (Some a)
    with Cons.prems show ?thesis by (intro exI[of _ 0]) simp
  qed
qed

lemma group_numero:
  assumes "search (p @ numero @ r) s = Some ms" "n_marks p = 2 * j"
  shows "solo_monto (group_m ms (Suc j))"
proof -
  from search_Some_drop[OF assms(1)] obtain i where "rmatch (p @ numero @ r) (drop i s) = Some ms"
    by blast
  from rmatch_append_Some[OF this] obtain k ms1 ms2 where
    a: "ms = ms1 @ ms2" "length ms1 = 2 * j" "rmatch (numero @ r) (drop k (drop i s)) = Some ms2"
    unfolding splits_at_def assms(2) by blast
  from rmatch_numero_Some[OF a(3)] obtain g v ms' where
    b: "ms2 = (g @ v) # v # ms'" "solo_monto g" by blast
  have "group_m ms (Suc j) = g"
    using a(1,2) b(1) by (simp add: group_m_def nth_append)
  then show ?thesis using b(2) by simp
qed

lemma es_monto_solo: "es_monto n \<Longrightarrow> solo_monto n"
  by (auto simp: es_monto_def solo_monto_def)

lemma limpiar_solo_monto:
  assumes "solo_monto g"
  shows "limpiar_valor_monetario (Some g) = filter is_digit g"
proof -
  have f: "filter (\<lambda>x. x \<noteq> CHR '','') (filter (\<lambda>x. x \<noteq> CHR ''$'') g) = filter is_digit g"
    unfolding filter_filter
    by (rule filter_cong) (use assms in \<open>auto simp: solo_monto_def list_all_iff is_digit_def Let_def\<close>)
  have "strip (filter is_digit g) = filter is_digit g"
    by (rule strip_no_space) (auto dest: digit_not_space)
  then show ?thesis
    using assms by (simp add: solo_monto_def limpiar_valor_monetario_def replace_empty f del: filter_filter)
qed

lemma digit_val_nonneg: "is_digit c \<Longrightarrow> 0 \<le> digit_val c"
  by (simp add: is_digit_def digit_val_def Let_def)

lemma foldl_digits_nonneg:
  "\<forall>c\<in>set s. is_digit c \<Longrightarrow> 0 \<le> acc \<Longrightarrow> 0 \<le> foldl (\<lambda>a c. a * 10 + digit_val c) acc s"
  by (induction s arbitrary: acc) (simp_all add: digit_val_nonneg)

lemma decimal_nonneg: "\<forall>c\<in>set s. is_digit c \<Longrightarrow> 0 \<le> decimal s"
  by (simp add: decimal_def foldl_digits_nonneg)

lemma py_int_empty: "py_int [] = Inl (ValueError [])"
  by (simp add: py_int_def int_strip_def)

lemma entero_solo_monto:
  assumes "solo_monto (group_m m n)"
  shows "entero m n = Inl (ValueError (filter is_digit (group_m m n)))
       \<or> entero m n = Inr (decimal (filter is_digit (group_m m n)))"
proof (cases "list_ex is_digit (group_m m n)")
  case True
  then have "filter is_digit (group_m m n) \<noteq> []"
    by (auto simp: list_ex_iff filter_empty_conv)
  then show ?thesis
    by (simp add: entero_def limpiar_solo_monto[OF assms] py_int_digits)
next
  case False
  then have "filter is_digit (group_m m n) = []"
    by (auto simp: list_ex_iff filter_empty_conv)
  then show ?thesis
    by (simp add: entero_def limpiar_solo_monto[OF assms] py_int_empty)
qed

lemma entero_nonneg: "solo_monto (group_m m n) \<Longrightarrow> entero m n = Inr v \<Longrightarrow> 0 \<le> v"
  using entero_solo_monto[of m n] by (auto simp: decimal_nonneg)

lemma facturas_split1:
  "patron_seccion_facturas =
     (lit ''DATOS DE FACTURAS'' @ [cualquiera] @ lit ''V.'' @ [espacios] @ lit ''Bruta''
        @ [espacios] @ lit '':'' @ [espacios]) @ numero @ ([cualquiera] @ pat_total)"
  by (simp add: patron_seccion_facturas_def pat_v_bruta_def)

lemma facturas_split2:
  "patron_seccion_facturas =
     (lit ''DATOS DE FACTURAS'' @ [cualquiera] @ pat_v_bruta @ [cualquiera] @ lit ''Total''
        @ [espacios] @ lit '':'' @ [espacios]) @ numero @ []"
  by (simp add: patron_seccion_facturas_def pat_total_def)

lemma n_marks_numero [simp]: "n_marks numero = 2"
  by (simp add: numero_def)

lemma n_marks_espacios [simp]: "n_marks (espacios # p) = n_marks p" "n_marks (cualquiera # p) = n_marks p"
  by (simp_all add: espacios_def cualquiera_def)

lemma n_marks_v_bruta [simp]: "n_marks pat_v_bruta = 2"
  by (simp add: pat_v_bruta_def)

lemma grupos_facturas:
  assumes "search patron_seccion_facturas t = Some m"
  shows "solo_monto (group_m m 1)" "solo_monto (group_m m 2)"
proof -
  have "solo_monto (group_m m (Suc 0))"
    by (rule group_numero[where j = 0, OF assms[unfolded facturas_split1]]) simp
  then show "solo_monto (group_m m 1)" by simp
  have "solo_monto (group_m m (Suc 1))"
    by (rule group_numero[where j = 1, OF assms[unfolded facturas_split2]]) simp
  then show "solo_monto (group_m m 2)" by (simp add: numeral_2_eq_2)
qed

lemma medio_split:
  "pat_medio nom @ [cualquiera] @ pat_val_ventas =
     (pat_medio nom @ [cualquiera] @ lit ''Val.'' @ [espacios] @ lit ''Ventas'' @ [espacios]
        @ lit '':'' @ [espacios]) @ numero @ []"
  by (simp add: pat_val_ventas_def)

lemma n_marks_medio [simp]: "n_marks (pat_medio nom) = 0"
  by (simp add: pat_medio_def)

lemma grupo_sin_marcas:
  assumes "search (p @ numero @ []) t = Some m" "n_marks p = 0"
  shows "solo_monto (group_m m 1)"
proof -
  have "solo_monto (group_m m (Suc 0))"
    by (rule group_numero[where j = 0, OF assms(1)]) (simp add: assms(2))
  then show ?thesis by simp
qed

lemma grupos_otros:
  "search patron_efectivo t = Some m \<Longrightarrow> solo_monto (group_m m 1)"
  "search patron_datafono t = Some m \<Longrightarrow> solo_monto (group_m m 1)"
  "search patron_egresos t = Some m \<Longrightarrow> solo_monto (group_m m 1)"
  "search patron_diferencia t = Some m \<Longrightarrow> solo_monto (group_m m 1)"
proof -
  show "search patron_efectivo t = Some m \<Longrightarrow> solo_monto (group_m m 1)"
    unfolding patron_efectivo_def medio_split by (erule grupo_sin_marcas) simp
  show "search patron_datafono t = Some m \<Longrightarrow> solo_monto (group_m m 1)"
    unfolding patron_datafono_def medio_split by (erule grupo_sin_marcas) simp
  have e: "patron_egresos = (lit ''DETALLE DE EGRESOS'' @ [cualquiera] @ lit ''Total''
        @ [espacios] @ lit '':'' @ [espacios]) @ numero @ []"
    by (simp add: patron_egresos_def pat_total_def)
  show "search patron_egresos t = Some m \<Longrightarrow> solo_monto (group_m m 1)"
    unfolding e by (erule grupo_sin_marcas) simp
  have d: "patron_diferencia = (lit ''Diferencia:'' @ [espacios]) @ numero @ []"
    by (simp add: patron_diferencia_def)
  show "search patron_diferencia t = Some m \<Longrightarrow> solo_monto (group_m m 1)"
    unfolding d by (erule grupo_sin_marcas) simp
qed

lemma monto_nonneg:
  assumes "monto p n t = Inr v"
    and "\<And>m. search p t = Some m \<Longrightarrow> solo_monto (group_m m n)"
  shows "0 \<le> v"
  using assms by (auto simp: monto_def split: option.splits dest: entero_nonneg)

lemma conversiones_nonneg:
  assumes "x \<in> set (conversiones t)" "x = Inr v"
  shows "0 \<le> v"
proof -
  have "0 \<le> v" if "monto patron_seccion_facturas 1 t = Inr v"
    by (rule monto_nonneg[OF that]) (rule grupos_facturas)
  moreover have "0 \<le> v" if "monto patron_seccion_facturas 2 t = Inr v"
    by (rule monto_nonneg[OF that]) (rule grupos_facturas)
  moreover have "0 \<le> v" if "monto patron_efectivo 1 t = Inr v"
    by (rule monto_nonneg[OF that]) (rule grupos_otros)
  moreover have "0 \<le> v" if "monto patron_datafono 1 t = Inr v"
    by (rule monto_nonneg[OF that]) (rule grupos_otros)
  moreover have "0 \<le> v" if "monto patron_egresos 1 t = Inr v"
    by (rule monto_nonneg[OF that]) (rule grupos_otros)
  moreover have "0 \<le> v" if "monto patron_diferencia 1 t = Inr v"
    by (rule monto_nonneg[OF that]) (rule grupos_otros)
  ultimately show ?thesis
    using assms unfolding conversiones_def by auto
qed

lemma apertura_eq:
  "Apertura d = [] \<Longrightarrow> extraer_apertura t d = (d\<lparr>Apertura := hora patron_apertura t\<rparr>, None)"
  by (simp add: extraer_apertura_def hora_def split: option.splits)

lemma cierre_eq:
  "Cierre d = [] \<Longrightarrow> extraer_cierre t d = (d\<lparr>Cierre := hora patron_cierre t\<rparr>, None)"
  by (simp add: extraer_cierre_def hora_def split: option.splits)

lemma facturas_eq:
  "V_Bruta d = 0 \<Longrightarrow> Total' d = 0 \<Longrightarrow>
   extraer_facturas t d =
     (case monto patron_seccion_facturas 1 t of
        Inl e \<Rightarrow> (d, Some e)
      | Inr v \<Rightarrow>
          (case monto patron_seccion_facturas 2 t of
             Inl e \<Rightarrow> (d\<lparr>V_Bruta := v\<rparr>, Some e)
           | Inr w \<Rightarrow> (d\<lparr>V_Bruta := v, Total' := w\<rparr>, None)))"
  by (simp add: extraer_facturas_def monto_def split: option.splits sum.splits)

lemma efectivo_eq:
  "Efectivo d = 0 \<Longrightarrow>
   extraer_efectivo t d =
     (case monto patron_efectivo 1 t of
        Inl e \<Rightarrow> (d, Some e) | Inr v \<Rightarrow> (d\<lparr>Efectivo := v\<rparr>, None))"
  by (simp add: extraer_efectivo_def monto_def split: option.splits sum.splits)

lemma datafono_eq:
  "Datafono d = 0 \<Longrightarrow>
   extraer_datafono t d =
     (case monto patron_datafono 1 t of
        Inl e \<Rightarrow> (d, Some e) | Inr v \<Rightarrow> (d\<lparr>Datafono := v\<rparr>, None))"
  by (simp add: extraer_datafono_def monto_def split: option.splits sum.splits)

lemma egresos_eq:
  "Total_Egresos d = 0 \<Longrightarrow>
   extraer_egresos t d =
     (case monto patron_egresos 1 t of
        Inl e \<Rightarrow> (d, Some e) | Inr v \<Rightarrow> (d\<lparr>Total_Egresos := v\<rparr>, None))"
  by (simp add: extraer_egresos_def monto_def split: option.splits sum.splits)

lemma diferencia_eq:
  "Diferencia d = 0 \<Longrightarrow>
   extraer_diferencia t d =
     (case monto patron_diferencia 1 t of
        Inl e \<Rightarrow> (d, Some e) | Inr v \<Rightarrow> (d\<lparr>Diferencia := v\<rparr>, None))"
  by (simp add: extraer_diferencia_def monto_def split: option.splits sum.splits)

lemmas pasos_eq = apertura_eq cierre_eq facturas_eq efectivo_eq datafono_eq egresos_eq diferencia_eq

lemma extraer_cerrado:
  "Apertura (fst (extraer_datos_pdf t)) = hora patron_apertura t"
  "Cierre (fst (extraer_datos_pdf t)) = hora patron_cierre t"
  "campos (fst (extraer_datos_pdf t)) =
     fst (asignados (conversiones t))
       @ replicate (6 - length (fst (asignados (conversiones t)))) 0"
  "snd (extraer_datos_pdf t) = snd (asignados (conversiones t))"
proof -
  have r: "replicate 6 (0::int) = [0, 0, 0, 0, 0, 0]" "replicate 5 (0::int) = [0, 0, 0, 0, 0]"
    "replicate 4 (0::int) = [0, 0, 0, 0]" "replicate 3 (0::int) = [0, 0, 0]"
    "replicate 2 (0::int) = [0, 0]"
    by (simp_all add: eval_nat_numeral)
  show "Apertura (fst (extraer_datos_pdf t)) = hora patron_apertura t"
    "Cierre (fst (extraer_datos_pdf t)) = hora patron_cierre t"
    "campos (fst (extraer_datos_pdf t)) =
       fst (asignados (conversiones t))
         @ replicate (6 - length (fst (asignados (conversiones t)))) 0"
    "snd (extraer_datos_pdf t) = snd (asignados (conversiones t))"
    by (simp_all add: extraer_datos_pdf_def pasos_eq datos_iniciales_def conversiones_def
        campos_def r split: sum.splits)
qed

lemma asignados_append_Inl: "asignados (map Inr vs @ Inl e # r) = (vs, Some e)"
  by (induction vs) simp_all

lemma asignados_None: "snd (asignados cs) = None \<Longrightarrow> cs = map Inr (fst (asignados cs))"
proof (induction cs)
  case Nil
  then show ?case by simp
next
  case (Cons c cs)
  then show ?case by (cases c) simp_all
qed

lemma asignados_length: "length (fst (asignados cs)) \<le> length cs"
proof (induction cs)
  case Nil
  then show ?case by simp
next
  case (Cons c cs)
  then show ?case by (cases c) simp_all
qed

lemma asignados_prefix:
  "asignados (map Inr vs @ cs) = (vs @ fst (asignados cs), snd (asignados cs))"
  by (induction vs) simp_all

lemma length_conversiones [simp]: "length (conversiones t) = 6"
  by (simp add: conversiones_def)

lemma rellenos_simps [simp]:
  "rellenos [] = []"
  "rellenos (Inl e # cs) = replicate (Suc (length cs)) 0"
  "rellenos (Inr v # cs) = v # rellenos cs"
  using asignados_length[of cs] by (simp_all add: rellenos_def Suc_diff_le)

lemma campos_rellenos: "campos (fst (extraer_datos_pdf t)) = rellenos (conversiones t)"
  by (simp add: extraer_cerrado rellenos_def)

lemma length_rellenos [simp]: "length (rellenos cs) = length cs"
  using asignados_length[of cs] by (simp add: rellenos_def)

lemma rellenos_cero_o_valor:
  "i < length cs \<Longrightarrow> rellenos cs ! i = 0 \<or> cs ! i = Inr (rellenos cs ! i)"
proof (induction cs arbitrary: i)
  case Nil
  then show ?case by simp
next
  case (Cons c cs)
  show ?case
  proof (cases c)
    case (Inl e)
    then show ?thesis using Cons.prems by (simp del: replicate_Suc)
  next
    case (Inr v)
    then show ?thesis using Cons by (cases i) simp_all
  qed
qed

lemma rellenos_sin_coincidencia:
  "i < length cs \<Longrightarrow> cs ! i = Inr 0 \<Longrightarrow> rellenos cs ! i = 0"
  using rellenos_cero_o_valor[of i cs] by auto

lemma rellenos_valor:
  "i < length cs \<Longrightarrow> \<forall>j\<le>i. \<exists>v. cs ! j = Inr v \<Longrightarrow> cs ! i = Inr (rellenos cs ! i)"
proof (induction cs arbitrary: i)
  case Nil
  then show ?case by simp
next
  case (Cons c cs)
  from Cons.prems(2) obtain v where c: "c = Inr v" by (auto dest: spec[of _ 0])
  show ?case
  proof (cases i)
    case 0
    then show ?thesis using c by simp
  next
    case (Suc k)
    have "\<forall>j\<le>k. \<exists>v. cs ! j = Inr v"
    proof (intro allI impI)
      fix j assume "j \<le> k"
      then show "\<exists>v. cs ! j = Inr v" using Cons.prems(2) Suc by (auto dest: spec[of _ "Suc j"])
    qed
    then show ?thesis using Cons.IH[of k] Cons.prems(1) Suc c by simp
  qed
qed


lemma campos_nth:
  "campos d ! 0 = V_Bruta d" "campos d ! 1 = Total' d" "campos d ! 2 = Efectivo d"
  "campos d ! 3 = Datafono d" "campos d ! 4 = Total_Egresos d" "campos d ! 5 = Diferencia d"
  "campos d ! Suc 0 = Total' d"
  by (simp_all add: campos_def eval_nat_numeral)

lemma conversiones_nth:
  "conversiones t ! 0 = monto patron_seccion_facturas 1 t"
  "conversiones t ! 1 = monto patron_seccion_facturas 2 t"
  "conversiones t ! 2 = monto patron_efectivo 1 t"
  "conversiones t ! 3 = monto patron_datafono 1 t"
  "conversiones t ! 4 = monto patron_egresos 1 t"
  "conversiones t ! 5 = monto patron_diferencia 1 t"
  "conversiones t ! Suc 0 = monto patron_seccion_facturas 2 t"
  by (simp_all add: conversiones_def eval_nat_numeral)

lemma campo_cero_o_valor:
  assumes "i < 6"
  shows "campos (fst (extraer_datos_pdf t)) ! i = 0
       \<or> conversiones t ! i = Inr (campos (fst (extraer_datos_pdf t)) ! i)"
  using rellenos_cero_o_valor[of i "conversiones t"] assms by (simp add: campos_rellenos)

lemma campo_nonneg:
  assumes "i < 6"
  shows "0 \<le> campos (fst (extraer_datos_pdf t)) ! i"
proof -
  from campo_cero_o_valor[OF assms, of t]
  show ?thesis
  proof
    assume "campos (fst (extraer_datos_pdf t)) ! i = 0"
    then show ?thesis by simp
  next
    assume a: "conversiones t ! i = Inr (campos (fst (extraer_datos_pdf t)) ! i)"
    have "conversiones t ! i \<in> set (conversiones t)" using assms by simp
    from conversiones_nonneg[OF this a] show ?thesis .
  qed
qed

lemma monto_Inr_cases:
  "monto p n t = Inr v \<Longrightarrow> v = 0 \<or> (\<exists>m. search p t = Some m \<and> entero m n = Inr v)"
  by (auto simp: monto_def split: option.splits)

lemma campo_sin_coincidencia:
  assumes "i < 6" "conversiones t ! i = Inr 0"
  shows "campos (fst (extraer_datos_pdf t)) ! i = 0"
  using rellenos_sin_coincidencia[of i "conversiones t"] assms by (simp add: campos_rellenos)

lemma monto_None: "search p t = None \<Longrightarrow> monto p n t = Inr 0"
  by (simp add: monto_def)

lemma search_drop_None: "search p s = None \<Longrightarrow> search p (drop k s) = None"
proof (induction s arbitrary: k)
  case Nil
  then show ?case by simp
next
  case (Cons c cs)
  then show ?case by (cases k) (auto split: option.splits)
qed

lemma rellenos_no_cero:
  "i < length cs \<Longrightarrow> rellenos cs ! i \<noteq> 0 \<Longrightarrow> \<forall>j\<le>i. cs ! j = Inr (rellenos cs ! j)"
proof (induction cs arbitrary: i)
  case Nil
  then show ?case by simp
next
  case (Cons c cs)
  show ?case
  proof (cases c)
    case (Inl e)
    then show ?thesis using Cons.prems by (simp del: replicate_Suc)
  next
    case (Inr v)
    show ?thesis
    proof (cases i)
      case 0
      then show ?thesis using Inr by simp
    next
      case (Suc k)
      then have "\<forall>j\<le>k. cs ! j = Inr (rellenos cs ! j)"
        using Cons.IH[of k] Cons.prems Inr by simp
      then show ?thesis using Inr Suc by (auto simp: nth_Cons split: nat.splits)
    qed
  qed
qed

lemma facturas_cadena:
  assumes "search patron_seccion_facturas t = Some m"
  shows "\<exists>h i. h < i \<and> prefix ''DATOS DE FACTURAS'' (drop h t)
          \<and> rmatch pat_v_bruta (drop i t) \<noteq> None
          \<and> search pat_total (drop (Suc i) t) \<noteq> None"
proof -
  let ?R = "[espacios] @ lit ''Bruta'' @ [espacios] @ lit '':'' @ [espacios] @ numero"
  let ?Q = "pat_v_bruta @ cualquiera # pat_total"
  have pf: "patron_seccion_facturas = lit ''DATOS DE FACTURAS'' @ cualquiera # ?Q"
    by (simp add: patron_seccion_facturas_def)
  have q: "?Q = lit ''V.'' @ ?R @ cualquiera # pat_total"
    by (simp add: pat_v_bruta_def)
  define L where "L = length ''DATOS DE FACTURAS''"
  have lit_L: "rmatch (lit ''DATOS DE FACTURAS'' @ r) s
      = (if prefix ''DATOS DE FACTURAS'' s then rmatch r (drop L s) else None)" for r s
    unfolding L_def by (rule rmatch_lit)
  from search_Some_drop[OF assms] obtain h where
    h: "rmatch patron_seccion_facturas (drop h t) = Some m" by blast
  have hp: "prefix ''DATOS DE FACTURAS'' (drop h t)"
    using h unfolding pf lit_L by (simp split: if_splits)
  have hs: "search ?Q (drop L (drop h t)) = Some m"
    using h hp unfolding pf lit_L by (simp add: rmatch_cualquiera)
  from search_Some_drop[OF hs] obtain j where
    j: "rmatch ?Q (drop j (drop L (drop h t))) = Some m" by blast
  define i where "i = j + (L + h)"
  have ji: "rmatch ?Q (drop i t) = Some m"
    using j by (simp add: i_def)
  have v: "rmatch pat_v_bruta (drop i t) \<noteq> None"
    using ji rmatch_append_None[of pat_v_bruta "drop i t" "cualquiera # pat_total"] by auto
  have "rmatch (?R @ cualquiera # pat_total) (drop 2 (drop i t)) = Some m"
    using ji unfolding q rmatch_lit by (simp split: if_splits)
  from rmatch_append_Some[OF this] obtain k ms2 where
    "rmatch (cualquiera # pat_total) (drop k (drop 2 (drop i t))) = Some ms2"
    unfolding splits_at_def by blast
  then have "search pat_total (drop (Suc k) (drop (Suc i) t)) = Some ms2"
    by (simp add: rmatch_cualquiera)
  then have "search pat_total (drop (Suc i) t) \<noteq> None"
    using search_drop_None[of pat_total "drop (Suc i) t" "Suc k"] by auto
  moreover have "h < i" by (simp add: i_def L_def)
  ultimately show ?thesis using hp v by blast
qed

lemma rmatch_digitos:
  "es_digitos n s \<Longrightarrow> rmatch (Rep [Digit] (Times n) # r) (s @ t) = rmatch r t"
  by (rule rmatch_times_run) (auto simp: es_digitos_def list_all_iff in_cls_def)

lemma rmatch_espacios_mas:
  assumes "es_espacios w" "w \<noteq> []" "stops [Space] t" "rmatch r t = Some m"
  shows "rmatch (Rep [Space] Plus # r) (w @ t) = Some m"
  by (rule rmatch_plus_run) (use assms in \<open>auto simp: es_espacios_def list_all_iff in_cls_def\<close>)

lemma stops_space_digitos: "es_digitos (Suc n) s \<Longrightarrow> stops [Space] (s @ t)"
  by (cases s) (auto simp: es_digitos_def stops_def in_cls_def dest: digit_not_space)

lemma rmatch_fecha_hora:
  assumes f: "es_digitos 2 f1" "es_digitos 2 f2" "es_digitos 4 f3"
    and h: "es_digitos 2 h1" "es_digitos 2 h2" "es_digitos 2 h3"
    and w: "es_espacios w1" "w1 \<noteq> []" "es_espacios w2" "w2 \<noteq> []"
    and ap: "ap = ''A'' \<or> ap = ''P''"
    and tok: "tok = f1 @ ''/'' @ f2 @ ''/'' @ f3 @ w1 @ h1 @ '':'' @ h2 @ '':'' @ h3 @ w2 @ ap @ ''M''"
  shows "rmatch fecha_hora (tok @ t) = Some [tok @ t, t]"
proof -
  let ?p8 = "[Rep [Chr CHR ''A'', Chr CHR ''P''] One, Rep [Chr CHR ''M''] One, Mark]"
  let ?t8 = "ap @ ''M'' @ t"
  have s8: "rmatch ?p8 ?t8 = Some [t]"
    using ap by (auto simp: in_cls_def)
  have st8: "stops [Space] ?t8"
    using ap by (auto simp: stops_def in_cls_def is_space_def)
  let ?p7 = "Rep [Space] Plus # ?p8"
  let ?t7 = "w2 @ ?t8"
  have s7: "rmatch ?p7 ?t7 = Some [t]"
    by (rule rmatch_espacios_mas[OF w(3,4) st8 s8])
  let ?p6 = "Rep [Digit] (Times 2) # Rep [Chr CHR '':''] One
             # Rep [Digit] (Times 2) # Rep [Chr CHR '':''] One # Rep [Digit] (Times 2) # ?p7"
  let ?t6 = "h1 @ '':'' @ h2 @ '':'' @ h3 @ ?t7"
  have s6: "rmatch ?p6 ?t6 = Some [t]"
    using s7 by (simp add: rmatch_digitos[OF h(1)] rmatch_digitos[OF h(2)]
        rmatch_digitos[OF h(3)] in_cls_def)
  have st6: "stops [Space] ?t6"
    using h(1) by (simp add: stops_space_digitos eval_nat_numeral)
  let ?p5 = "Rep [Space] Plus # ?p6"
  let ?t5 = "w1 @ ?t6"
  have s5: "rmatch ?p5 ?t5 = Some [t]"
    by (rule rmatch_espacios_mas[OF w(1,2) st6 s6])
  let ?p4 = "Rep [Digit] (Times 2) # Rep [Chr CHR ''/''] One
             # Rep [Digit] (Times 2) # Rep [Chr CHR ''/''] One # Rep [Digit] (Times 4) # ?p5"
  let ?t4 = "f1 @ ''/'' @ f2 @ ''/'' @ f3 @ ?t5"
  have s4: "rmatch ?p4 ?t4 = Some [t]"
    using s5 by (simp add: rmatch_digitos[OF f(1)] rmatch_digitos[OF f(2)]
        rmatch_digitos[OF f(3)] in_cls_def)
  have tt: "tok @ t = ?t4" by (simp add: tok)
  show ?thesis
    unfolding tt fecha_hora_def using s4 by simp
qed

lemma stops_space_tok:
  assumes "es_digitos 2 f1"
  shows "stops [Space] ((f1 @ u) @ t)"
  using stops_space_digitos[of 1 f1 "u @ t"] assms by (simp add: eval_nat_numeral)

lemma search_hora:
  assumes f: "es_digitos 2 f1" "es_digitos 2 f2" "es_digitos 4 f3"
    and h: "es_digitos 2 h1" "es_digitos 2 h2" "es_digitos 2 h3"
    and w: "es_espacios w1" "w1 \<noteq> []" "es_espacios w2" "w2 \<noteq> []"
    and ap: "ap = ''A'' \<or> ap = ''P''"
    and tok: "tok = f1 @ ''/'' @ f2 @ ''/'' @ f3 @ w1 @ h1 @ '':'' @ h2 @ '':'' @ h3 @ w2 @ ap @ ''M''"
    and w0: "es_espacios w"
    and first: "no_match_in (lit marca @ [espacios] @ fecha_hora) pre (marca @ w @ tok @ resto)"
  shows "hora (lit marca @ [espacios] @ fecha_hora) (pre @ marca @ w @ tok @ resto) = tok"
proof -
  have m: "rmatch fecha_hora (tok @ resto) = Some [tok @ resto, resto]"
    by (rule rmatch_fecha_hora[OF f h w ap tok])
  have st: "stops [Space] (tok @ resto)"
    unfolding tok by (rule stops_space_tok[OF f(1)])
  have e: "rmatch (espacios # fecha_hora) (w @ tok @ resto) = Some [tok @ resto, resto]"
    by (rule rmatch_espacios[OF w0 st m])
  have "rmatch ((lit marca @ [espacios] @ fecha_hora) @ []) (marca @ w @ tok @ resto)
          = Some [tok @ resto, resto]"
    using e by (simp add: rmatch_lit)
  from search_first[OF first this]
  have "search (lit marca @ [espacios] @ fecha_hora) (pre @ marca @ w @ tok @ resto)
          = Some [tok @ resto, resto]"
    by simp
  then show ?thesis by (simp add: hora_def group_m_def)
qed

lemma rmatch_val_ventas:
  assumes "es_espacios w" "es_signo d" "es_monto n" "fin_monto t"
    and "rmatch r t = Some m"
  shows "rmatch (pat_val_ventas @ r) (''Val. Ventas :'' @ w @ d @ n @ t) = Some ((n @ t) # t # m)"
proof -
  have a: "rmatch (espacios # numero @ r) (w @ d @ n @ t) = Some ((n @ t) # t # m)"
    using assms by (simp add: rmatch_espacios_numero)
  have b: "rmatch (espacios # lit '':'' @ espacios # numero @ r) ('' '' @ '':'' @ w @ d @ n @ t)
        = Some ((n @ t) # t # m)"
    by (rule rmatch_espacios)
      (use a in \<open>simp_all add: rmatch_lit stops_def in_cls_def is_space_def es_espacios_def\<close>)
  have c: "rmatch (espacios # lit ''Ventas'' @ espacios # lit '':'' @ espacios # numero @ r)
             ('' '' @ ''Ventas'' @ '' '' @ '':'' @ w @ d @ n @ t) = Some ((n @ t) # t # m)"
    by (rule rmatch_espacios)
      (use b in \<open>simp_all add: rmatch_lit stops_def in_cls_def is_space_def es_espacios_def\<close>)
  show ?thesis using c by (simp add: pat_val_ventas_def rmatch_lit)
qed

lemma rmatch_medio:
  assumes "nombre = ''EFECTIVO'' \<or> nombre = ''DATAFONO''" "rmatch r t = Some m"
  shows "rmatch (pat_medio nombre @ r) (''Medio : '' @ nombre @ t) = Some m"
proof -
  have e: "es_espacios '' ''" by (simp add: es_espacios_def is_space_def)
  have s: "stops [Space] (nombre @ t)"
    using assms(1) by (auto simp: stops_def in_cls_def is_space_def)
  have a: "rmatch (espacios # lit nombre @ r) ('' '' @ nombre @ t) = Some m"
    by (rule rmatch_espacios[OF e s]) (simp add: rmatch_lit assms(2))
  have b: "rmatch (espacios # lit '':'' @ espacios # lit nombre @ r)
             ('' '' @ '':'' @ '' '' @ nombre @ t) = Some m"
    by (rule rmatch_espacios[OF e])
      (use a in \<open>simp_all add: rmatch_lit stops_def in_cls_def is_space_def\<close>)
  show ?thesis using b by (simp add: pat_medio_def rmatch_lit)
qed

lemma search_medio:
  assumes nom: "nombre = ''EFECTIVO'' \<or> nombre = ''DATAFONO''"
    and texto: "texto = a @ ''Medio : '' @ nombre @ f @ cola"
    and cola: "cola = ''Val. Ventas :'' @ w @ d @ n @ r"
    and ok: "es_espacios w" "es_signo d" "es_monto n" "fin_monto r"
    and h1: "no_match_in (pat_medio nombre) a (''Medio : '' @ nombre @ f @ cola)"
    and h2: "no_match_in pat_val_ventas f cola"
  shows "monto (pat_medio nombre @ [cualquiera] @ pat_val_ventas) 1 texto
           = Inr (decimal (filter is_digit n))"
proof -
  let ?m = "[n @ r, r]"
  have v: "rmatch (pat_val_ventas @ []) cola = Some ?m"
    unfolding cola by (rule rmatch_val_ventas) (use ok in simp_all)
  have s: "search (pat_val_ventas @ []) (f @ cola) = Some ?m"
    by (rule search_first[OF h2 v])
  have p: "rmatch (pat_medio nombre @ cualquiera # pat_val_ventas) (''Medio : '' @ nombre @ f @ cola)
      = Some ?m"
    by (rule rmatch_medio[OF nom]) (use s in \<open>simp add: rmatch_cualquiera\<close>)
  have "search (pat_medio nombre @ cualquiera # pat_val_ventas) (a @ ''Medio : '' @ nombre @ f @ cola)
      = Some ?m"
    by (rule search_first[OF h1 p])
  then have "search (pat_medio nombre @ [cualquiera] @ pat_val_ventas) texto = Some ?m"
    by (simp add: texto)
  moreover have "entero ?m 1 = Inr (decimal (filter is_digit n))"
    unfolding entero_def group_1 by (rule py_int_monto[OF ok(3)])
  ultimately show ?thesis by (simp add: monto_def)
qed

lemma texto_paginas_falla:
  "(\<exists>e. texto_paginas acc ps = Inl e) \<longleftrightarrow> list_ex pagina_falla ps"
proof (induction acc ps rule: texto_paginas.induct)
qed (simp_all add: pagina_falla_def)

lemma procesar_pdf_None: "fst (procesar_pdf abrir f) = None \<longleftrightarrow> falla abrir f"
proof (cases "abrir f")
  case (Inl e)
  then show ?thesis by (simp add: procesar_pdf_def falla_def)
next
  case (Inr ps)
  show ?thesis
  proof (cases "texto_paginas [] ps")
    case (Inl e)
    then have "list_ex pagina_falla ps" using texto_paginas_falla[of "[]" ps] by blast
    then show ?thesis using Inr Inl by (simp add: procesar_pdf_def falla_def)
  next
    case r: (Inr t)
    then have "\<not> list_ex pagina_falla ps" using texto_paginas_falla[of "[]" ps] by auto
    then show ?thesis using Inr r
      by (simp add: procesar_pdf_def falla_def split: prod.splits option.splits)
  qed
qed

lemma Archivo_extend [simp]: "Archivo (datos.extend d (fila.fields n)) = n"
  by (simp add: datos.extend_def fila.fields_def fila.defs datos.defs)

lemma foldl_procesar_archivo:
  "\<exists>rs. foldl (procesar_archivo abrir name) (resultados, errores) fs
        = (resultados @ rs, errores @ map name (filter (falla abrir) fs))
      \<and> map Archivo rs = map name (filter (\<lambda>f. \<not> falla abrir f) fs)"
proof (induction fs arbitrary: resultados errores)
  case Nil
  then show ?case by simp
next
  case (Cons f fs)
  show ?case
  proof (cases "fst (procesar_pdf abrir f)")
    case None
    then have fa: "falla abrir f" by (simp add: procesar_pdf_None)
    from Cons.IH[of resultados "errores @ [name f]"] obtain rs where
      "foldl (procesar_archivo abrir name) (resultados, errores @ [name f]) fs
        = (resultados @ rs, (errores @ [name f]) @ map name (filter (falla abrir) fs))"
      "map Archivo rs = map name (filter (\<lambda>f. \<not> falla abrir f) fs)" by blast
    moreover have "procesar_archivo abrir name (resultados, errores) f
        = (resultados, errores @ [name f])"
      using None by (simp add: procesar_archivo_def)
    ultimately show ?thesis using fa
      by (intro exI[of _ rs]) simp
  next
    case (Some d)
    then have fa: "\<not> falla abrir f" using procesar_pdf_None[of abrir f] by simp
    let ?r = "datos.extend d (fila.fields (name f))"
    from Cons.IH[of "resultados @ [?r]" errores] obtain rs where
      "foldl (procesar_archivo abrir name) (resultados @ [?r], errores) fs
        = ((resultados @ [?r]) @ rs, errores @ map name (filter (falla abrir) fs))"
      "map Archivo rs = map name (filter (\<lambda>f. \<not> falla abrir f) fs)" by blast
    moreover have "procesar_archivo abrir name (resultados, errores) f
        = (resultados @ [?r], errores)"
      using Some by (simp add: procesar_archivo_def)
    ultimately show ?thesis using fa
      by (intro exI[of _ "?r # rs"]) simp
  qed
qed

lemma monto_primer_medio:
  assumes "nombre = ''EFECTIVO'' \<or> nombre = ''DATAFONO''"
    and "primer_medio nombre a f w d n r"
  shows "monto (pat_medio nombre @ [cualquiera] @ pat_val_ventas) 1
           (a @ ''Medio : '' @ nombre @ f @ ''Val. Ventas :'' @ w @ d @ n @ r)
         = Inr (decimal (filter is_digit n))"
  by (rule search_medio[OF assms(1) refl refl])
     (use assms(2) in \<open>simp_all add: primer_medio_def\<close>)

lemma campos_medios:
  assumes "monto patron_efectivo 1 texto = Inr vE" "monto patron_datafono 1 texto = Inr vD"
    and "facturas_sin_error texto"
  shows "Efectivo (fst (extraer_datos_pdf texto)) = vE
       \<and> Datafono (fst (extraer_datos_pdf texto)) = vD"
proof -
  have cF: "\<exists>v. monto patron_seccion_facturas 1 texto = Inr v"
    "\<exists>v. monto patron_seccion_facturas 2 texto = Inr v"
    using assms(3) by (auto simp: facturas_sin_error_def monto_def split: option.splits)
  have all: "\<forall>j\<le>3. \<exists>v. conversiones texto ! j = Inr v"
  proof (intro allI impI)
    fix j :: nat assume "j \<le> 3"
    then have "j = 0 \<or> j = 1 \<or> j = 2 \<or> j = 3" by arith
    then show "\<exists>v. conversiones texto ! j = Inr v"
      using assms(1,2) cF by (auto simp: conversiones_nth)
  qed
  have "conversiones texto ! 2 = Inr (rellenos (conversiones texto) ! 2)"
    by (rule rellenos_valor) (use all in simp_all)
  moreover have "conversiones texto ! 3 = Inr (rellenos (conversiones texto) ! 3)"
    by (rule rellenos_valor) (use all in simp_all)
  ultimately show ?thesis
    using assms(1,2) by (simp add: campos_rellenos[symmetric] campos_nth conversiones_nth)
qed

section \<open>The claims\<close>

text \<open>
  C1, as amended. A text holds the header \<open>DATOS DE FACTURAS\<close> at its leftmost
  occurrence; after the header, the first match of the \<open>V. Bruta :\<close> fragment (the label,
  the optional sign, a run of digits or commas) has the run \<open>n1\<close>; after \<open>n1\<close>, the first
  match of the \<open>Total :\<close> fragment has the run \<open>n2\<close>; both runs have at least one digit and
  no more than \<open>int\<close> converts, and end before what follows them. Then the extractor sets
  \<open>V_Bruta\<close> and \<open>Total\<close> to the values of \<open>n1\<close> and \<open>n2\<close>, whatever follows in \<open>resto\<close>, a
  later \<open>Total :\<close> included. The white space of the labels and the currency sign are as
  the pattern allows them.
\<close>

theorem facturas_primera:
  assumes cola2: "cola2 = ''Total'' @ w4 @ '':'' @ w5 @ d2 @ n2 @ resto"
    and cola1: "cola1 = ''V.'' @ w1 @ ''Bruta'' @ w2 @ '':'' @ w3 @ d1 @ n1 @ m2 @ cola2"
    and texto: "texto = pre @ ''DATOS DE FACTURAS'' @ m1 @ cola1"
    and esp: "es_espacios w1" "es_espacios w2" "es_espacios w3" "es_espacios w4" "es_espacios w5"
    and sig: "es_signo d1" "es_signo d2"
    and mon: "es_monto n1" "fin_monto m2" "es_monto n2" "fin_monto resto"
    and h0: "no_match_in (lit ''DATOS DE FACTURAS'') pre (''DATOS DE FACTURAS'' @ m1 @ cola1)"
    and h1: "no_match_in pat_v_bruta m1 cola1"
    and h2: "no_match_in pat_total m2 cola2"
  shows "V_Bruta (fst (extraer_datos_pdf texto)) = decimal (filter is_digit n1)
       \<and> Total' (fst (extraer_datos_pdf texto)) = decimal (filter is_digit n2)"
proof -
  let ?m2 = "[n2 @ resto, resto]"
  let ?m = "(n1 @ m2 @ cola2) # (m2 @ cola2) # ?m2"
  have t: "rmatch (pat_total @ []) cola2 = Some ?m2"
    unfolding cola2 by (rule rmatch_total) (use esp sig mon in simp_all)
  have s2: "search (pat_total @ []) (m2 @ cola2) = Some ?m2"
    by (rule search_first[OF h2 t])
  have fm: "fin_monto (m2 @ cola2)"
    by (rule fin_monto_append[OF mon(2)]) (simp add: cola2 fin_monto_def is_digit_def)
  have v: "rmatch (pat_v_bruta @ cualquiera # pat_total) cola1 = Some ?m"
    unfolding cola1
    by (rule rmatch_v_bruta) (use esp sig mon fm s2 in \<open>simp_all add: rmatch_cualquiera\<close>)
  have s1: "search (pat_v_bruta @ cualquiera # pat_total) (m1 @ cola1) = Some ?m"
    by (rule search_first[OF h1 v])
  have p: "rmatch (lit ''DATOS DE FACTURAS'' @ cualquiera # pat_v_bruta @ cualquiera # pat_total)
             (''DATOS DE FACTURAS'' @ m1 @ cola1) = Some ?m"
    using s1 by (simp add: rmatch_lit rmatch_cualquiera)
  have "search (lit ''DATOS DE FACTURAS'' @ cualquiera # pat_v_bruta @ cualquiera # pat_total)
             (pre @ ''DATOS DE FACTURAS'' @ m1 @ cola1) = Some ?m"
    by (rule search_first[OF h0 p])
  then have s: "search patron_seccion_facturas texto = Some ?m"
    by (simp add: patron_seccion_facturas_def texto)
  have e1: "entero ?m 1 = Inr (decimal (filter is_digit n1))"
    unfolding entero_def group_1 by (rule py_int_monto[OF mon(1)])
  have e2: "entero ?m 2 = Inr (decimal (filter is_digit n2))"
    unfolding entero_def group_2 by (rule py_int_monto[OF mon(3)])
  show ?thesis by (rule facturas_fields[OF s e1 e2])
qed

text \<open>The example of the specification, as an instance of the theorem.\<close>

theorem facturas_primera_ejemplo:
  "V_Bruta (fst (extraer_datos_pdf
      ''DATOS DE FACTURAS ... V. Bruta : $1,234 ... Total : $1,200 ... Total : $999'')) = 1234
   \<and> Total' (fst (extraer_datos_pdf
      ''DATOS DE FACTURAS ... V. Bruta : $1,234 ... Total : $1,200 ... Total : $999'')) = 1200"
proof -
  have "V_Bruta (fst (extraer_datos_pdf
      ''DATOS DE FACTURAS ... V. Bruta : $1,234 ... Total : $1,200 ... Total : $999''))
        = decimal (filter is_digit ''1,234'')
   \<and> Total' (fst (extraer_datos_pdf
      ''DATOS DE FACTURAS ... V. Bruta : $1,234 ... Total : $1,200 ... Total : $999''))
        = decimal (filter is_digit ''1,200'')"
    by (rule facturas_primera[where pre = "[]" and ?m1.0 = "'' ... ''" and ?w1.0 = "'' ''"
          and ?w2.0 = "'' ''" and ?w3.0 = "'' ''" and ?d1.0 = "''$''" and ?m2.0 = "'' ... ''"
          and ?w4.0 = "'' ''" and ?w5.0 = "'' ''" and ?d2.0 = "''$''"
          and resto = "'' ... Total : $999''", OF refl refl])
      (simp_all add: es_espacios_def es_signo_def es_monto_def max_str_digits_def fin_monto_def is_space_def
        is_digit_def pat_v_bruta_def pat_total_def espacios_def numero_def lit_def in_cls_def)
  then show ?thesis by (simp add: decimal_def digit_val_def is_digit_def)
qed

text \<open>
  The claim as stated fails. In both texts the header is followed by a \<open>V. Bruta :\<close>
  numeral and then a \<open>Total :\<close> numeral. In the first a comma alone stands after an earlier
  \<open>V. Bruta :\<close>: the pattern takes it as the first group, its conversion raises and both
  fields keep their default. In the second a comma alone stands after an earlier
  \<open>Total :\<close>: \<open>V_Bruta\<close> is set, the conversion of the second group raises and \<open>Total\<close>
  keeps its default.
\<close>

theorem facturas_primera_contraejemplo:
  "V_Bruta (fst (extraer_datos_pdf
      ''DATOS DE FACTURAS V. Bruta : , V. Bruta : $1,234 Total : $1,200'')) = 0
   \<and> Total' (fst (extraer_datos_pdf
      ''DATOS DE FACTURAS V. Bruta : , V. Bruta : $1,234 Total : $1,200'')) = 0
   \<and> V_Bruta (fst (extraer_datos_pdf
      ''DATOS DE FACTURAS V. Bruta : $1,234 Total : , Total : $1,200'')) = 1234
   \<and> Total' (fst (extraer_datos_pdf
      ''DATOS DE FACTURAS V. Bruta : $1,234 Total : , Total : $1,200'')) = 0"
  by code_simp

text \<open>
  C2, as amended. Two texts hold the same two sections in the two orders, between the
  same \<open>pre\<close>, \<open>mid\<close> and \<open>post\<close>: the section \<open>Medio : EFECTIVO\<close> with the amount \<open>nE\<close>
  after \<open>Val. Ventas :\<close>, and the section \<open>Medio : DATAFONO\<close> with the amount \<open>nD\<close>. In
  each text each label is the leftmost match of the label of its means, each amount is
  the first match of the \<open>Val. Ventas :\<close> fragment after its label, has at least one
  digit and no more than \<open>int\<close> converts, and ends before what follows it; and the
  conversions of the invoice section, which come first, do not raise. Then in both texts
  the extractor sets \<open>Efectivo\<close> to the value of \<open>nE\<close> and \<open>Datafono\<close> to the value of \<open>nD\<close>.
\<close>

theorem medios_por_etiqueta:
  assumes secE: "secE = ''Medio : EFECTIVO'' @ fE @ ''Val. Ventas :'' @ wE @ dE @ nE"
    and secD: "secD = ''Medio : DATAFONO'' @ fD @ ''Val. Ventas :'' @ wD @ dD @ nD"
    and t1: "t1 = pre @ secE @ mid @ secD @ post"
    and t2: "t2 = pre @ secD @ mid @ secE @ post"
    and e1: "primer_medio ''EFECTIVO'' pre fE wE dE nE (mid @ secD @ post)"
    and d1: "primer_medio ''DATAFONO'' (pre @ secE @ mid) fD wD dD nD post"
    and d2: "primer_medio ''DATAFONO'' pre fD wD dD nD (mid @ secE @ post)"
    and e2: "primer_medio ''EFECTIVO'' (pre @ secD @ mid) fE wE dE nE post"
    and f1: "facturas_sin_error t1"
    and f2: "facturas_sin_error t2"
  shows "Efectivo (fst (extraer_datos_pdf t1)) = decimal (filter is_digit nE)
       \<and> Datafono (fst (extraer_datos_pdf t1)) = decimal (filter is_digit nD)
       \<and> Efectivo (fst (extraer_datos_pdf t2)) = decimal (filter is_digit nE)
       \<and> Datafono (fst (extraer_datos_pdf t2)) = decimal (filter is_digit nD)"
proof -
  have nE: "''EFECTIVO'' = ''EFECTIVO'' \<or> ''EFECTIVO'' = ''DATAFONO''"
    and nD: "''DATAFONO'' = ''EFECTIVO'' \<or> ''DATAFONO'' = ''DATAFONO''"
    by simp_all
  have a1: "monto patron_efectivo 1 t1 = Inr (decimal (filter is_digit nE))"
    using monto_primer_medio[OF nE e1] by (simp add: patron_efectivo_def t1 secE)
  have b1: "monto patron_datafono 1 t1 = Inr (decimal (filter is_digit nD))"
    using monto_primer_medio[OF nD d1] by (simp add: patron_datafono_def t1 secD)
  have a2: "monto patron_efectivo 1 t2 = Inr (decimal (filter is_digit nE))"
    using monto_primer_medio[OF nE e2] by (simp add: patron_efectivo_def t2 secE)
  have b2: "monto patron_datafono 1 t2 = Inr (decimal (filter is_digit nD))"
    using monto_primer_medio[OF nD d2] by (simp add: patron_datafono_def t2 secD)
  from campos_medios[OF a1 b1 f1] campos_medios[OF a2 b2 f2] show ?thesis by simp
qed

text \<open>The example of the specification, in both orders of the two sections.\<close>

theorem medios_por_etiqueta_ejemplo:
  "Efectivo (fst (extraer_datos_pdf
      ''Medio : EFECTIVO ... Val. Ventas : $500 ... Medio : DATAFONO ... Val. Ventas : $300'')) = 500
   \<and> Datafono (fst (extraer_datos_pdf
      ''Medio : EFECTIVO ... Val. Ventas : $500 ... Medio : DATAFONO ... Val. Ventas : $300'')) = 300
   \<and> Efectivo (fst (extraer_datos_pdf
      ''Medio : DATAFONO ... Val. Ventas : $300 ... Medio : EFECTIVO ... Val. Ventas : $500'')) = 500
   \<and> Datafono (fst (extraer_datos_pdf
      ''Medio : DATAFONO ... Val. Ventas : $300 ... Medio : EFECTIVO ... Val. Ventas : $500'')) = 300"
proof -
  let ?t1 = "''Medio : EFECTIVO ... Val. Ventas : $500 ... Medio : DATAFONO ... Val. Ventas : $300''"
  let ?t2 = "''Medio : DATAFONO ... Val. Ventas : $300 ... Medio : EFECTIVO ... Val. Ventas : $500''"
  have s1: "search patron_seccion_facturas ?t1 = None" by code_simp
  have s2: "search patron_seccion_facturas ?t2 = None" by code_simp
  have g1: "facturas_sin_error ?t1" unfolding facturas_sin_error_def s1 by simp
  have g2: "facturas_sin_error ?t2" unfolding facturas_sin_error_def s2 by simp
  have "Efectivo (fst (extraer_datos_pdf ?t1)) = decimal (filter is_digit ''500'')
       \<and> Datafono (fst (extraer_datos_pdf ?t1)) = decimal (filter is_digit ''300'')
       \<and> Efectivo (fst (extraer_datos_pdf ?t2)) = decimal (filter is_digit ''500'')
       \<and> Datafono (fst (extraer_datos_pdf ?t2)) = decimal (filter is_digit ''300'')"
    by (rule medios_por_etiqueta[where pre = "[]" and mid = "'' ... ''" and post = "[]"
          and fE = "'' ... ''" and wE = "'' ''" and dE = "''$''"
          and fD = "'' ... ''" and wD = "'' ''" and dD = "''$''",
          OF refl refl _ _ _ _ _ _ g1 g2])
       (simp_all add: primer_medio_def es_espacios_def es_signo_def es_monto_def
         max_str_digits_def fin_monto_def is_space_def is_digit_def pat_medio_def
         pat_val_ventas_def espacios_def numero_def lit_def in_cls_def)
  then show ?thesis
    by (simp add: decimal_def digit_val_def is_digit_def)
qed

text \<open>
  The claim as stated fails. The first text holds both sections, but its invoice section
  has a comma alone after \<open>V. Bruta :\<close>: that conversion raises before the two patterns
  are searched, and both fields keep their default. The second text has no invoice
  section; a comma alone stands after an earlier \<open>Val. Ventas :\<close> of the first section,
  the pattern takes it as the group, its conversion raises, and both fields keep their
  default.
\<close>

theorem medios_por_etiqueta_contraejemplo:
  "Efectivo (fst (extraer_datos_pdf
      ''DATOS DE FACTURAS V. Bruta : , Total : 1 Medio : EFECTIVO Val. Ventas : $500 Medio : DATAFONO Val. Ventas : $300'')) = 0
   \<and> Datafono (fst (extraer_datos_pdf
      ''DATOS DE FACTURAS V. Bruta : , Total : 1 Medio : EFECTIVO Val. Ventas : $500 Medio : DATAFONO Val. Ventas : $300'')) = 0
   \<and> Efectivo (fst (extraer_datos_pdf
      ''Medio : EFECTIVO Val. Ventas : , Val. Ventas : $500 Medio : DATAFONO Val. Ventas : $300'')) = 0
   \<and> Datafono (fst (extraer_datos_pdf
      ''Medio : EFECTIVO Val. Ventas : , Val. Ventas : $500 Medio : DATAFONO Val. Ventas : $300'')) = 0"
  by code_simp

text \<open>
  C3. The normalizer tests its argument before cleaning it, not the cleaned string: an
  argument made of the currency sign, commas or white space alone is returned as the
  empty string, not as \<open>0\<close>, and the conversion to integer that follows raises.
\<close>

theorem limpiar_solo_separadores:
  "limpiar_valor_monetario (Some '','') = []
   \<and> limpiar_valor_monetario (Some ''$'') = []
   \<and> limpiar_valor_monetario (Some '' '') = []
   \<and> py_int (limpiar_valor_monetario (Some '','')) = Inl (ValueError [])"
  by (simp add: limpiar_valor_monetario_def replace_def strip_def is_space_def py_int_def
      int_strip_def)

text \<open>
  C4. On a string that is not empty the normalizer returns the string without its
  currency signs and commas and without the white space around what is left; the digits
  are those of the argument, in the same order. The function is total and returns a
  string: it does not raise.
\<close>

theorem limpiar_valor_monetario_quita:
  assumes "s \<noteq> []"
  shows "limpiar_valor_monetario (Some s)
           = strip (filter (\<lambda>c. c \<noteq> CHR ''$'' \<and> c \<noteq> CHR '','') s)
       \<and> filter is_digit (limpiar_valor_monetario (Some s)) = filter is_digit s"
proof -
  have a: "limpiar_valor_monetario (Some s)
             = strip (filter (\<lambda>c. c \<noteq> CHR ''$'' \<and> c \<noteq> CHR '','') s)"
    using assms by (simp add: limpiar_valor_monetario_def replace_empty conj_commute)
  have "filter is_digit (filter (\<lambda>c. c \<noteq> CHR ''$'' \<and> c \<noteq> CHR '','') s) = filter is_digit s"
    unfolding filter_filter by (rule filter_cong) (auto dest: digit_not_dollar digit_not_comma)
  with a show ?thesis by (simp add: filter_digit_strip del: filter_filter)
qed

theorem limpiar_valor_monetario_quita_ejemplo:
  "limpiar_valor_monetario (Some ''$1,234,567 '') = ''1234567''
   \<and> filter is_digit (limpiar_valor_monetario (Some ''$1,234,567 '')) = ''1234567''"
  using limpiar_valor_monetario_quita[of "''$1,234,567 ''"]
  by (simp add: strip_def is_space_def is_digit_def)




text \<open>
  C6. The record returned for any text has its eight fields (it is a value of the record
  type). Each field holds its default, or the value taken from a match of its own
  pattern: the captured text for the two times, the converted group for the six monetary
  fields. The six monetary fields are not negative. A text that none of the patterns
  matches gives the defaults and no error.
\<close>

theorem registro_completo:
  "let d = fst (extraer_datos_pdf texto) in
     (Apertura d = [] \<or> (\<exists>m. search patron_apertura texto = Some m \<and> Apertura d = group_m m 1))
   \<and> (Cierre d = [] \<or> (\<exists>m. search patron_cierre texto = Some m \<and> Cierre d = group_m m 1))
   \<and> (V_Bruta d = 0
        \<or> (\<exists>m. search patron_seccion_facturas texto = Some m \<and> entero m 1 = Inr (V_Bruta d)))
   \<and> (Total' d = 0
        \<or> (\<exists>m. search patron_seccion_facturas texto = Some m \<and> entero m 2 = Inr (Total' d)))
   \<and> (Efectivo d = 0
        \<or> (\<exists>m. search patron_efectivo texto = Some m \<and> entero m 1 = Inr (Efectivo d)))
   \<and> (Datafono d = 0
        \<or> (\<exists>m. search patron_datafono texto = Some m \<and> entero m 1 = Inr (Datafono d)))
   \<and> (Total_Egresos d = 0
        \<or> (\<exists>m. search patron_egresos texto = Some m \<and> entero m 1 = Inr (Total_Egresos d)))
   \<and> (Diferencia d = 0
        \<or> (\<exists>m. search patron_diferencia texto = Some m \<and> entero m 1 = Inr (Diferencia d)))
   \<and> 0 \<le> V_Bruta d \<and> 0 \<le> Total' d \<and> 0 \<le> Efectivo d \<and> 0 \<le> Datafono d
   \<and> 0 \<le> Total_Egresos d \<and> 0 \<le> Diferencia d
   \<and> (search patron_apertura texto = None \<and> search patron_cierre texto = None
        \<and> search patron_seccion_facturas texto = None \<and> search patron_efectivo texto = None
        \<and> search patron_datafono texto = None \<and> search patron_egresos texto = None
        \<and> search patron_diferencia texto = None
       \<longrightarrow> extraer_datos_pdf texto = (datos_iniciales, None))"
proof -
  define d where "d = fst (extraer_datos_pdf texto)"
  have a: "Apertura d = [] \<or> (\<exists>m. search patron_apertura texto = Some m \<and> Apertura d = group_m m 1)"
    by (simp add: d_def extraer_cerrado hora_def split: option.splits)
  have c: "Cierre d = [] \<or> (\<exists>m. search patron_cierre texto = Some m \<and> Cierre d = group_m m 1)"
    by (simp add: d_def extraer_cerrado hora_def split: option.splits)
  have v: "campos d ! i = 0 \<or> conversiones texto ! i = Inr (campos d ! i)" if "i < 6" for i
    unfolding d_def by (rule campo_cero_o_valor[OF that])
  have f0: "V_Bruta d = 0
        \<or> (\<exists>m. search patron_seccion_facturas texto = Some m \<and> entero m 1 = Inr (V_Bruta d))"
    using v[of 0] by (auto simp: campos_nth conversiones_nth dest: monto_Inr_cases)
  have f1: "Total' d = 0
        \<or> (\<exists>m. search patron_seccion_facturas texto = Some m \<and> entero m 2 = Inr (Total' d))"
    using v[of 1] by (auto simp: campos_nth conversiones_nth dest: monto_Inr_cases)
  have f2: "Efectivo d = 0
        \<or> (\<exists>m. search patron_efectivo texto = Some m \<and> entero m 1 = Inr (Efectivo d))"
    using v[of 2] by (auto simp: campos_nth conversiones_nth dest: monto_Inr_cases)
  have f3: "Datafono d = 0
        \<or> (\<exists>m. search patron_datafono texto = Some m \<and> entero m 1 = Inr (Datafono d))"
    using v[of 3] by (auto simp: campos_nth conversiones_nth dest: monto_Inr_cases)
  have f4: "Total_Egresos d = 0
        \<or> (\<exists>m. search patron_egresos texto = Some m \<and> entero m 1 = Inr (Total_Egresos d))"
    using v[of 4] by (auto simp: campos_nth conversiones_nth dest: monto_Inr_cases)
  have f5: "Diferencia d = 0
        \<or> (\<exists>m. search patron_diferencia texto = Some m \<and> entero m 1 = Inr (Diferencia d))"
    using v[of 5] by (auto simp: campos_nth conversiones_nth dest: monto_Inr_cases)
  have n: "0 \<le> campos d ! i" if "i < 6" for i
    unfolding d_def by (rule campo_nonneg[OF that])
  have nn: "0 \<le> V_Bruta d" "0 \<le> Total' d" "0 \<le> Efectivo d" "0 \<le> Datafono d"
    "0 \<le> Total_Egresos d" "0 \<le> Diferencia d"
    using n[of 0] n[of 1] n[of 2] n[of 3] n[of 4] n[of 5] by (simp_all add: campos_nth)
  have e: "extraer_datos_pdf texto = (datos_iniciales, None)"
    if "search patron_apertura texto = None" "search patron_cierre texto = None"
      "search patron_seccion_facturas texto = None" "search patron_efectivo texto = None"
      "search patron_datafono texto = None" "search patron_egresos texto = None"
      "search patron_diferencia texto = None"
    using that
    by (simp add: extraer_datos_pdf_def extraer_apertura_def extraer_cierre_def
        extraer_facturas_def extraer_efectivo_def extraer_datafono_def extraer_egresos_def
        extraer_diferencia_def)
  show ?thesis
    unfolding Let_def d_def[symmetric] using a c f0 f1 f2 f3 f4 f5 nn e by blast
qed

text \<open>A text without any marker, as an instance of the theorem.\<close>

theorem registro_completo_ejemplo:
  "extraer_datos_pdf ''sin datos'' = (datos_iniciales, None)"
proof -
  have "search patron_apertura ''sin datos'' = None \<and> search patron_cierre ''sin datos'' = None
        \<and> search patron_seccion_facturas ''sin datos'' = None
        \<and> search patron_efectivo ''sin datos'' = None
        \<and> search patron_datafono ''sin datos'' = None
        \<and> search patron_egresos ''sin datos'' = None
        \<and> search patron_diferencia ''sin datos'' = None"
    by code_simp
  with registro_completo[of "''sin datos''"] show ?thesis
    unfolding Let_def by blast
qed

text \<open>
  C7. When a conversion raises, after the conversions before it gave the values \<open>vs\<close>, the
  extractor reports that exception and returns the record all the same: the monetary
  fields assigned before hold \<open>vs\<close>, the field of the conversion that raised and the
  fields after it hold the default \<open>0\<close>, and the two times, extracted before any conversion,
  hold what their patterns captured. The extractor is a total function: the exception
  does not leave it.
\<close>

theorem error_registro_parcial:
  assumes "conversiones texto = map Inr vs @ Inl e # resto"
  shows "snd (extraer_datos_pdf texto) = Some e
       \<and> campos (fst (extraer_datos_pdf texto)) = vs @ replicate (Suc (length resto)) 0
       \<and> Apertura (fst (extraer_datos_pdf texto)) = hora patron_apertura texto
       \<and> Cierre (fst (extraer_datos_pdf texto)) = hora patron_cierre texto"
proof -
  have "length (conversiones texto) = 6" by simp
  then have l: "6 - length vs = Suc (length resto)"
    unfolding assms by simp
  show ?thesis
    by (simp add: extraer_cerrado assms asignados_append_Inl l)
qed

text \<open>
  A text whose \<open>Total :\<close> is followed by a comma alone: \<open>V_Bruta\<close> is kept, the error is
  reported, and \<open>Diferencia\<close>, whose marker is in the text, is left at its default.
\<close>

theorem error_registro_parcial_ejemplo:
  "snd (extraer_datos_pdf
      ''A: 01/02/2024 08:00:00 AM DATOS DE FACTURAS V. Bruta : $5 Total : , Diferencia: 7'')
     = Some (ValueError [])
   \<and> campos (fst (extraer_datos_pdf
      ''A: 01/02/2024 08:00:00 AM DATOS DE FACTURAS V. Bruta : $5 Total : , Diferencia: 7''))
     = [5, 0, 0, 0, 0, 0]
   \<and> Apertura (fst (extraer_datos_pdf
      ''A: 01/02/2024 08:00:00 AM DATOS DE FACTURAS V. Bruta : $5 Total : , Diferencia: 7''))
     = ''01/02/2024 08:00:00 AM''
   \<and> Cierre (fst (extraer_datos_pdf
      ''A: 01/02/2024 08:00:00 AM DATOS DE FACTURAS V. Bruta : $5 Total : , Diferencia: 7''))
     = []"
proof -
  let ?t = "''A: 01/02/2024 08:00:00 AM DATOS DE FACTURAS V. Bruta : $5 Total : , Diferencia: 7''"
  have c: "conversiones ?t = map Inr [5] @ Inl (ValueError []) # [Inr 0, Inr 0, Inr 0, Inr 7]"
    by code_simp
  have h: "hora patron_apertura ?t = ''01/02/2024 08:00:00 AM''" "hora patron_cierre ?t = []"
    by code_simp+
  from error_registro_parcial[OF c] h show ?thesis
    by (simp add: eval_nat_numeral)
qed

text \<open>
  C8. For a batch of documents of which those that satisfy \<open>falla\<close> fail, the loop gives
  one row for each of the others, in order and carrying the name of its document, and the
  list of the names of the failed ones, in order: with \<open>N\<close> documents and \<open>M\<close> failures,
  \<open>N - M\<close> rows and \<open>M\<close> names. The loop is a total function of the batch: no exception of a
  document leaves \<open>procesar_pdf\<close>.
\<close>

theorem lote_resultados_y_errores:
  "case procesar_archivos abrir name uploaded_files of
     (resultados, errores) \<Rightarrow>
       length resultados
         = length uploaded_files - length (filter (falla abrir) uploaded_files)
     \<and> length errores = length (filter (falla abrir) uploaded_files)
     \<and> errores = map name (filter (falla abrir) uploaded_files)
     \<and> map Archivo resultados = map name (filter (\<lambda>f. \<not> falla abrir f) uploaded_files)"
proof -
  from foldl_procesar_archivo[of abrir name "[]" "[]" uploaded_files] obtain rs where
    r: "procesar_archivos abrir name uploaded_files
        = (rs, map name (filter (falla abrir) uploaded_files))"
    "map Archivo rs = map name (filter (\<lambda>f. \<not> falla abrir f) uploaded_files)"
    unfolding procesar_archivos_def by auto
  have "length rs = length (filter (\<lambda>f. \<not> falla abrir f) uploaded_files)"
    using r(2) by (metis length_map)
  moreover have "length (filter (\<lambda>f. \<not> falla abrir f) uploaded_files)
      = length uploaded_files - length (filter (falla abrir) uploaded_files)"
    using sum_length_filter_compl[of "falla abrir" uploaded_files] by simp
  ultimately show ?thesis using r by simp
qed

text \<open>
  C9, as amended. When no header is followed by a \<open>V. Bruta :\<close> run that has a \<open>Total :\<close>
  run of digits or commas after it, \<open>V_Bruta\<close> and \<open>Total\<close> both keep the default \<open>0\<close>. And
  \<open>Total\<close> is set only from a match of the combined pattern from which \<open>V_Bruta\<close> was set
  too.
\<close>

theorem facturas_sin_total:
  "let d = fst (extraer_datos_pdf texto) in
     ((\<forall>h i. h < i \<and> prefix ''DATOS DE FACTURAS'' (drop h texto)
              \<and> rmatch pat_v_bruta (drop i texto) \<noteq> None
            \<longrightarrow> search pat_total (drop (Suc i) texto) = None)
      \<longrightarrow> V_Bruta d = 0 \<and> Total' d = 0)
   \<and> (Total' d \<noteq> 0 \<longrightarrow>
        (\<exists>m. search patron_seccion_facturas texto = Some m
             \<and> entero m 1 = Inr (V_Bruta d) \<and> entero m 2 = Inr (Total' d)))"
proof -
  define d where "d = fst (extraer_datos_pdf texto)"
  have one: "V_Bruta d = 0 \<and> Total' d = 0"
    if h: "\<forall>h i. h < i \<and> prefix ''DATOS DE FACTURAS'' (drop h texto)
              \<and> rmatch pat_v_bruta (drop i texto) \<noteq> None
            \<longrightarrow> search pat_total (drop (Suc i) texto) = None"
  proof -
    have "search patron_seccion_facturas texto = None"
    proof (cases "search patron_seccion_facturas texto")
      case None
      then show ?thesis .
    next
      case (Some m)
      from facturas_cadena[OF Some] obtain k i where
        ki: "k < i" "prefix ''DATOS DE FACTURAS'' (drop k texto)"
        "rmatch pat_v_bruta (drop i texto) \<noteq> None"
        "search pat_total (drop (Suc i) texto) \<noteq> None"
        by blast
      from h[rule_format, of k i] ki have False by simp
      then show ?thesis ..
    qed
    then have "conversiones texto ! 0 = Inr 0" "conversiones texto ! 1 = Inr 0"
      by (simp_all add: conversiones_nth monto_None)
    then show ?thesis
      using campo_sin_coincidencia[of 0 texto] campo_sin_coincidencia[of 1 texto]
      by (simp add: d_def campos_nth)
  qed
  have two: "\<exists>m. search patron_seccion_facturas texto = Some m
             \<and> entero m 1 = Inr (V_Bruta d) \<and> entero m 2 = Inr (Total' d)"
    if t: "Total' d \<noteq> 0"
  proof -
    have "rellenos (conversiones texto) ! 1 \<noteq> 0"
      using t by (simp add: d_def campos_rellenos[symmetric] campos_nth)
    from rellenos_no_cero[OF _ this] have
      a: "\<forall>j\<le>1. conversiones texto ! j = Inr (campos d ! j)"
      by (simp add: d_def campos_rellenos)
    have c0: "monto patron_seccion_facturas 1 texto = Inr (V_Bruta d)"
      using a[rule_format, of 0] by (simp add: conversiones_nth campos_nth)
    have c1: "monto patron_seccion_facturas 2 texto = Inr (Total' d)"
      using a[rule_format, of 1] by (simp add: conversiones_nth campos_nth)
    from c1 t obtain m where m: "search patron_seccion_facturas texto = Some m"
      "entero m 2 = Inr (Total' d)"
      by (auto dest: monto_Inr_cases)
    then have "entero m 1 = Inr (V_Bruta d)" using c0 by (simp add: monto_def)
    then show ?thesis using m by blast
  qed
  show ?thesis
    unfolding Let_def d_def[symmetric]
  proof (intro conjI impI)
    assume "\<forall>h i. h < i \<and> prefix ''DATOS DE FACTURAS'' (drop h texto)
              \<and> rmatch pat_v_bruta (drop i texto) \<noteq> None
            \<longrightarrow> search pat_total (drop (Suc i) texto) = None"
    from one[OF this] show "V_Bruta d = 0" "Total' d = 0" by simp_all
  next
    assume "Total' d \<noteq> 0"
    from two[OF this] show "\<exists>m. search patron_seccion_facturas texto = Some m
             \<and> entero m 1 = Inr (V_Bruta d) \<and> entero m 2 = Inr (Total' d)" .
  qed
qed

text \<open>A text with the header and a \<open>V. Bruta :\<close> amount and no \<open>Total :\<close> at all.\<close>

theorem facturas_sin_total_ejemplo:
  "V_Bruta (fst (extraer_datos_pdf ''DATOS DE FACTURAS V. Bruta : $5 Medio : EFECTIVO'')) = 0
   \<and> Total' (fst (extraer_datos_pdf ''DATOS DE FACTURAS V. Bruta : $5 Medio : EFECTIVO'')) = 0"
proof -
  let ?t = "''DATOS DE FACTURAS V. Bruta : $5 Medio : EFECTIVO''"
  have "search pat_total ?t = None" by code_simp
  then have "search pat_total (drop (Suc i) ?t) = None" for i
    by (rule search_drop_None)
  then have hyp: "\<forall>h i. h < i \<and> prefix ''DATOS DE FACTURAS'' (drop h ?t)
              \<and> rmatch pat_v_bruta (drop i ?t) \<noteq> None
            \<longrightarrow> search pat_total (drop (Suc i) ?t) = None"
    by simp
  have imp: "(\<forall>h i. h < i \<and> prefix ''DATOS DE FACTURAS'' (drop h ?t)
              \<and> rmatch pat_v_bruta (drop i ?t) \<noteq> None
            \<longrightarrow> search pat_total (drop (Suc i) ?t) = None)
      \<longrightarrow> V_Bruta (fst (extraer_datos_pdf ?t)) = 0 \<and> Total' (fst (extraer_datos_pdf ?t)) = 0"
    using facturas_sin_total[of ?t] unfolding Let_def by (rule conjunct1)
  from imp hyp show ?thesis by (rule mp)
qed

text \<open>
  The claim as stated fails. No \<open>Total :\<close> numeral follows \<open>V. Bruta : $5\<close>, only a comma;
  the combined pattern matches it, \<open>V_Bruta\<close> is assigned, the conversion of the second
  group raises, and \<open>V_Bruta\<close> is set without \<open>Total\<close>.
\<close>

theorem facturas_sin_total_contraejemplo:
  "V_Bruta (fst (extraer_datos_pdf ''DATOS DE FACTURAS V. Bruta : $5 Total : ,'')) = 5
   \<and> Total' (fst (extraer_datos_pdf ''DATOS DE FACTURAS V. Bruta : $5 Total : ,'')) = 0
   \<and> snd (extraer_datos_pdf ''DATOS DE FACTURAS V. Bruta : $5 Total : ,'')
       = Some (ValueError [])"
  by code_simp

text \<open>
  C10. The markers \<open>A:\<close> and \<open>C:\<close> are matched wherever they stand, whatever text \<open>pre\<close>
  comes before them, the rest of a longer word included. When the marker is followed, after
  optional white space, by a token of two digits, \<open>/\<close>, two digits, \<open>/\<close>, four digits, white
  space, a time of three pairs of digits separated by \<open>:\<close>, white space and \<open>AM\<close> or \<open>PM\<close>,
  and the pattern matches at no position of \<open>pre\<close> (the occurrence is the leftmost), the
  extractor sets \<open>Apertura\<close>, for \<open>A:\<close>, and \<open>Cierre\<close>, for \<open>C:\<close>, to that token.
\<close>

theorem hora_subcadena:
  assumes "es_digitos 2 f1" "es_digitos 2 f2" "es_digitos 4 f3"
    and "es_digitos 2 h1" "es_digitos 2 h2" "es_digitos 2 h3"
    and "es_espacios w1" "w1 \<noteq> []" "es_espacios w2" "w2 \<noteq> []"
    and "ap = ''A'' \<or> ap = ''P''"
    and "tok = f1 @ ''/'' @ f2 @ ''/'' @ f3 @ w1 @ h1 @ '':'' @ h2 @ '':'' @ h3 @ w2 @ ap @ ''M''"
    and "es_espacios w"
  shows "(no_match_in patron_apertura pre (''A:'' @ w @ tok @ resto)
          \<longrightarrow> Apertura (fst (extraer_datos_pdf (pre @ ''A:'' @ w @ tok @ resto))) = tok)
       \<and> (no_match_in patron_cierre pre (''C:'' @ w @ tok @ resto)
          \<longrightarrow> Cierre (fst (extraer_datos_pdf (pre @ ''C:'' @ w @ tok @ resto))) = tok)"
proof (intro conjI impI)
  assume "no_match_in patron_apertura pre (''A:'' @ w @ tok @ resto)"
  then have "hora patron_apertura (pre @ ''A:'' @ w @ tok @ resto) = tok"
    unfolding patron_apertura_def by (rule search_hora[OF assms])
  then show "Apertura (fst (extraer_datos_pdf (pre @ ''A:'' @ w @ tok @ resto))) = tok"
    by (simp add: extraer_cerrado)
next
  assume "no_match_in patron_cierre pre (''C:'' @ w @ tok @ resto)"
  then have "hora patron_cierre (pre @ ''C:'' @ w @ tok @ resto) = tok"
    unfolding patron_cierre_def by (rule search_hora[OF assms])
  then show "Cierre (fst (extraer_datos_pdf (pre @ ''C:'' @ w @ tok @ resto))) = tok"
    by (simp add: extraer_cerrado)
qed

text \<open>
  \<open>HORA:\<close> gives the opening time and \<open>FEC:\<close> the closing time; in the second text a later
  \<open>C:\<close> with a token of its own is not the one used.
\<close>

theorem hora_subcadena_ejemplo:
  "Apertura (fst (extraer_datos_pdf ''HORA: 15/03/2024 08:05:10 AM CAJA A: 1''))
     = ''15/03/2024 08:05:10 AM''
   \<and> Cierre (fst (extraer_datos_pdf ''FEC:16/03/2024  09:15:00 PM C: 17/03/2024 10:00:00 PM''))
     = ''16/03/2024  09:15:00 PM''"
proof -
  have d: "es_digitos 2 ''15''" "es_digitos 2 ''03''" "es_digitos 4 ''2024''"
    "es_digitos 2 ''08''" "es_digitos 2 ''05''" "es_digitos 2 ''10''"
    "es_digitos 2 ''16''" "es_digitos 2 ''09''" "es_digitos 2 ''00''"
    by (simp_all add: es_digitos_def is_digit_def)
  have e: "es_espacios '' ''" "es_espacios ''  ''" "es_espacios []"
    by (simp_all add: es_espacios_def is_space_def)
  have a: "no_match_in patron_apertura ''HOR'' (''A:'' @ '' '' @ ''15/03/2024 08:05:10 AM'' @ '' CAJA A: 1'')"
    by (simp add: patron_apertura_def fecha_hora_def espacios_def lit_def in_cls_def)
  have c: "no_match_in patron_cierre ''FE'' (''C:'' @ [] @ ''16/03/2024  09:15:00 PM'' @ '' C: 17/03/2024 10:00:00 PM'')"
    by (simp add: patron_cierre_def fecha_hora_def espacios_def lit_def in_cls_def)
  have "no_match_in patron_apertura ''HOR'' (''A:'' @ '' '' @ ''15/03/2024 08:05:10 AM'' @ '' CAJA A: 1'')
      \<longrightarrow> Apertura (fst (extraer_datos_pdf
             (''HOR'' @ ''A:'' @ '' '' @ ''15/03/2024 08:05:10 AM'' @ '' CAJA A: 1'')))
          = ''15/03/2024 08:05:10 AM''"
    by (rule conjunct1,
        rule hora_subcadena[where ?f1.0 = "''15''" and ?f2.0 = "''03''" and ?f3.0 = "''2024''"
          and ?h1.0 = "''08''" and ?h2.0 = "''05''" and ?h3.0 = "''10''" and ?w1.0 = "'' ''"
          and ?w2.0 = "'' ''" and ap = "''A''"])
       (simp_all add: d e)
  with a have "Apertura (fst (extraer_datos_pdf
             (''HOR'' @ ''A:'' @ '' '' @ ''15/03/2024 08:05:10 AM'' @ '' CAJA A: 1'')))
          = ''15/03/2024 08:05:10 AM''"
    by (rule mp[rotated])
  moreover have "no_match_in patron_cierre ''FE''
        (''C:'' @ [] @ ''16/03/2024  09:15:00 PM'' @ '' C: 17/03/2024 10:00:00 PM'')
      \<longrightarrow> Cierre (fst (extraer_datos_pdf
             (''FE'' @ ''C:'' @ [] @ ''16/03/2024  09:15:00 PM'' @ '' C: 17/03/2024 10:00:00 PM'')))
          = ''16/03/2024  09:15:00 PM''"
    by (rule conjunct2,
        rule hora_subcadena[where ?f1.0 = "''16''" and ?f2.0 = "''03''" and ?f3.0 = "''2024''"
          and ?h1.0 = "''09''" and ?h2.0 = "''15''" and ?h3.0 = "''00''" and ?w1.0 = "''  ''"
          and ?w2.0 = "'' ''" and ap = "''P''"])
       (simp_all add: d e)
  with c have "Cierre (fst (extraer_datos_pdf
             (''FE'' @ ''C:'' @ [] @ ''16/03/2024  09:15:00 PM'' @ '' C: 17/03/2024 10:00:00 PM'')))
          = ''16/03/2024  09:15:00 PM''"
    by (rule mp[rotated])
  ultimately show ?thesis by simp
qed

end
